theory Spec2Isabelle
  imports Complex_Main
begin

section \<open>Grid-Based Numbering: the host document as the script sees it\<close>

text \<open>
  The script (\<^verbatim>\<open>Grid-Based Numbering.pushbutton/script.py\<close>) runs inside a BIM host.
  Host objects are modelled by the attributes the script reads and writes. Host floating
  point numbers are modelled as reals; \<^verbatim>\<open>float("inf")\<close> is a value of its own.
\<close>

type_synonym ElementId = int

record XYZ =
  X :: real
  Y :: real
  Z :: real

text \<open>\<^verbatim>\<open>XYZ.DistanceTo\<close>: the host's Euclidean distance between two points.\<close>

definition DistanceTo :: "XYZ \<Rightarrow> XYZ \<Rightarrow> real" where
  "DistanceTo p q = sqrt ((X p - X q)\<^sup>2 + (Y p - Y q)\<^sup>2 + (Z p - Z q)\<^sup>2)"

text \<open>
  A curve, by what the script asks of it: \<^verbatim>\<open>Direction\<close> and
  \<^verbatim>\<open>Evaluate(0.5, True)\<close> (\<open>None\<close> when the host raises).
\<close>

record Curve =
  Direction :: XYZ
  Evaluate_half :: "XYZ option"

record Grid =
  Name :: string
  Curve :: Curve

record Category =
  category_name :: string
  AllowsBoundParameters :: bool

record Parameter =
  AsString :: string
  IsReadOnly :: bool

text \<open>
  \<^verbatim>\<open>elem.Location\<close>: a location with a \<^verbatim>\<open>Point\<close>, one with a \<^verbatim>\<open>Curve\<close>, a location
  object that has neither attribute, or \<^verbatim>\<open>None\<close>.
\<close>

datatype Location = LocationPoint XYZ | LocationCurve Curve | LocationOther | NoLocation

record Element =
  Category :: "Category option"
  Location :: Location
  Parameters :: "string \<rightharpoonup> Parameter"

datatype BindingKind = InstanceBinding | TypeBinding

datatype ParameterType = Text | OtherType

record Definition =
  definition_name :: string
  definition_type :: ParameterType

record Binding =
  binding_kind :: BindingKind
  Categories :: "Category set"

record Document =
  elements :: "ElementId \<rightharpoonup> Element"
  ParameterBindings :: "(Definition \<times> Binding) list"
  Grids :: "Grid list"

record DefinitionGroup =
  group_name :: string
  Definitions :: "Definition list"

text \<open>
  The application: \<open>SharedParameterFile\<close> is what \<^verbatim>\<open>app.OpenSharedParameterFile()\<close>
  returns at the start; \<open>TempSharedParameterFile\<close> is what it returns once the script
  has pointed \<^verbatim>\<open>SharedParametersFilename\<close> at the file it writes in the temporary folder.
\<close>

record Application =
  SharedParameterFile :: "DefinitionGroup list option"
  TempSharedParameterFile :: "DefinitionGroup list option"
  revitVersion :: int

text \<open>What the host sees of a run, in order.\<close>

datatype event =
    TxStart string
  | TxCommit string
  | TxRollBack string
  | Alert string
  | ParamSet ElementId string string

record World =
  document :: Document
  application :: Application
  journal :: "event list"

datatype py_exception = AttributeError

datatype py_float = Float real | PosInf

text \<open>\<^verbatim>\<open>dist < min_dist\<close>, where \<^verbatim>\<open>min_dist\<close> starts as \<^verbatim>\<open>float("inf")\<close>.\<close>

fun float_less :: "real \<Rightarrow> py_float \<Rightarrow> bool" where
  "float_less d PosInf = True"
| "float_less d (Float m) = (d < m)"

section \<open>The script's functions\<close>

fun get_element_location :: "Element \<Rightarrow> XYZ option" where
  "get_element_location elem =
     (case Location elem of
        LocationPoint p \<Rightarrow> Some p
      | LocationCurve c \<Rightarrow> Evaluate_half c
      | LocationOther \<Rightarrow> None
      | NoLocation \<Rightarrow> None)"

definition GetElement :: "Document \<Rightarrow> ElementId \<Rightarrow> Element option" where
  "GetElement doc eid = elements doc eid"

text \<open>
  \<^verbatim>\<open>elem.LookupParameter(name)\<close> on the live element \<open>eid\<close>: the element is a reference
  into the document, so the parameter is read from the document as it is now.
\<close>

definition LookupParameter :: "Document \<Rightarrow> ElementId \<Rightarrow> string \<Rightarrow> Parameter option" where
  "LookupParameter doc eid name =
     (case elements doc eid of None \<Rightarrow> None | Some elem \<Rightarrow> Parameters elem name)"

text \<open>\<^verbatim>\<open>param.Set(value)\<close> on the parameter \<open>name\<close> of element \<open>eid\<close>.\<close>

definition Set_doc :: "ElementId \<Rightarrow> string \<Rightarrow> string \<Rightarrow> Document \<Rightarrow> Document" where
  "Set_doc eid name v doc =
     (case elements doc eid of
        None \<Rightarrow> doc
      | Some elem \<Rightarrow>
          (case Parameters elem name of
             None \<Rightarrow> doc
           | Some param \<Rightarrow>
               doc\<lparr>elements := (elements doc)
                 (eid \<mapsto> elem\<lparr>Parameters := (Parameters elem)(name \<mapsto> param\<lparr>AsString := v\<rparr>)\<rparr>)\<rparr>))"

definition param_Set :: "ElementId \<Rightarrow> string \<Rightarrow> string \<Rightarrow> World \<Rightarrow> World" where
  "param_Set eid name v w =
     w\<lparr>document := Set_doc eid name v (document w),
       journal := journal w @ [ParamSet eid name v]\<rparr>"

definition alert :: "string \<Rightarrow> World \<Rightarrow> World" where
  "alert msg w = w\<lparr>journal := journal w @ [Alert msg]\<rparr>"

definition log_event :: "event \<Rightarrow> World \<Rightarrow> World" where
  "log_event e w = w\<lparr>journal := journal w @ [e]\<rparr>"

type_synonym intersection = "XYZ \<times> Grid \<times> Grid"

text \<open>Lines 234 to 240: the scan for the closest intersection.\<close>

fun closest_scan ::
  "XYZ \<Rightarrow> intersection list \<Rightarrow> py_float \<times> (Grid \<times> Grid) option
     \<Rightarrow> py_float \<times> (Grid \<times> Grid) option" where
  "closest_scan pt [] (min_dist, closest) = (min_dist, closest)"
| "closest_scan pt ((ip, v_grid, h_grid) # rest) (min_dist, closest) =
     (let dist = DistanceTo pt ip in
      if float_less dist min_dist
      then closest_scan pt rest (Float dist, Some (v_grid, h_grid))
      else closest_scan pt rest (min_dist, closest))"

text \<open>Lines 231 to 246: the body of the "Grid Square" loop for one selected id.\<close>

definition grid_square_body ::
  "intersection list \<Rightarrow> ElementId \<Rightarrow> Element \<Rightarrow> World \<times> ElementId set
     \<Rightarrow> World \<times> ElementId set" where
  "grid_square_body intersections eid elem s =
     (case get_element_location elem of
        None \<Rightarrow> s
      | Some pt \<Rightarrow>
          (case snd (closest_scan pt intersections (PosInf, None)) of
             None \<Rightarrow> s
           | Some closest \<Rightarrow>
               (let grid_square = Name (fst closest) @ ''-'' @ Name (snd closest) in
                case LookupParameter (document (fst s)) eid ''Grid Square'' of
                  None \<Rightarrow> s
                | Some param \<Rightarrow>
                    if \<not> IsReadOnly param
                    then (param_Set eid ''Grid Square'' grid_square (fst s), insert eid (snd s))
                    else s)))"

fun grid_square_loop ::
  "intersection list \<Rightarrow> ElementId list \<Rightarrow> World \<times> ElementId set
     \<Rightarrow> py_exception + World \<times> ElementId set" where
  "grid_square_loop intersections [] s = Inr s"
| "grid_square_loop intersections (eid # eids) s =
     (case GetElement (document (fst s)) eid of
        None \<Rightarrow> Inl AttributeError
      | Some elem \<Rightarrow> grid_square_loop intersections eids (grid_square_body intersections eid elem s))"

text \<open>Lines 249 to 255: the elements that have a location, each with its distance from the start.\<close>

fun elements_with_distance ::
  "Document \<Rightarrow> XYZ \<Rightarrow> ElementId list \<Rightarrow> py_exception + (ElementId \<times> real) list" where
  "elements_with_distance doc start_point [] = Inr []"
| "elements_with_distance doc start_point (eid # eids) =
     (case GetElement doc eid of
        None \<Rightarrow> Inl AttributeError
      | Some elem \<Rightarrow>
          (case elements_with_distance doc start_point eids of
             Inl e \<Rightarrow> Inl e
           | Inr rest \<Rightarrow>
               (case get_element_location elem of
                  None \<Rightarrow> Inr rest
                | Some pt \<Rightarrow> Inr ((eid, DistanceTo pt start_point) # rest))))"

text \<open>\<^verbatim>\<open>str(num)\<close> for a counter that starts at 1 and only grows.\<close>

definition digit_char :: "nat \<Rightarrow> char" where
  "digit_char d = ''0123456789'' ! d"

fun str :: "nat \<Rightarrow> string" where
  "str n = (if n < 10 then [digit_char n] else str (n div 10) @ [digit_char (n mod 10)])"

declare str.simps [simp del]

text \<open>Lines 260 to 266: the "Number" loop over the sorted list.\<close>

fun number_loop ::
  "(ElementId \<times> real) list \<Rightarrow> World \<times> ElementId set \<times> nat \<Rightarrow> World \<times> ElementId set \<times> nat" where
  "number_loop [] s = s"
| "number_loop ((eid, distance) # rest) (w, modified_elem_ids, num) =
     (case LookupParameter (document w) eid ''Number'' of
        None \<Rightarrow> number_loop rest (w, modified_elem_ids, num)
      | Some param \<Rightarrow>
          if \<not> IsReadOnly param
          then number_loop rest
                 (param_Set eid ''Number'' (str num) w, insert eid modified_elem_ids, num + 1)
          else number_loop rest (w, modified_elem_ids, num))"

text \<open>
  Lines 229 to 266, between \<^verbatim>\<open>t.Start()\<close> and \<^verbatim>\<open>t.Commit()\<close>. Python's \<^verbatim>\<open>list.sort\<close>
  is stable, as \<open>sort_key\<close> is.
\<close>

definition assign_parameters ::
  "intersection list \<Rightarrow> XYZ \<Rightarrow> ElementId list \<Rightarrow> World
     \<Rightarrow> py_exception + World \<times> ElementId set" where
  "assign_parameters intersections start_point initial_sel_ids w =
     (case grid_square_loop intersections initial_sel_ids (w, {}) of
        Inl e \<Rightarrow> Inl e
      | Inr (w1, modified1) \<Rightarrow>
          (case elements_with_distance (document w1) start_point initial_sel_ids of
             Inl e \<Rightarrow> Inl e
           | Inr ewd \<Rightarrow>
               (case number_loop (sort_key snd ewd) (w1, modified1, 1) of
                  (w2, modified2, num) \<Rightarrow> Inr (w2, modified2))))"


section \<open>Parameter setup\<close>

datatype outcome = Returned | Exited | Raised py_exception

text \<open>The text of \<^verbatim>\<open>repr(e)\<close>, abbreviated to the name of the exception's class.\<close>

fun repr :: "py_exception \<Rightarrow> string" where
  "repr AttributeError = ''AttributeError''"

text \<open>
  Lines 49 to 55: the iterator over the binding map stops at the first definition whose
  name is \<open>param_name\<close>; the result is its position with the key and the binding.
\<close>

fun find_definition ::
  "string \<Rightarrow> (Definition \<times> Binding) list \<Rightarrow> (nat \<times> Definition \<times> Binding) option" where
  "find_definition param_name [] = None"
| "find_definition param_name ((definition, binding) # rest) =
     (if definition_name definition = param_name then Some (0, definition, binding)
      else (case find_definition param_name rest of
              None \<Rightarrow> None
            | Some (i, d, b) \<Rightarrow> Some (Suc i, d, b)))"

text \<open>Lines 56 to 78: the parameter exists; its binding gets the categories it misses.\<close>

definition update_binding ::
  "string \<Rightarrow> Category set \<Rightarrow> nat \<times> Definition \<times> Binding \<Rightarrow> World \<Rightarrow> World" where
  "update_binding param_name cat_set found w =
     (case found of (i, definition, binding) \<Rightarrow>
        (let existingCats = Categories binding;
             missingCats = {cat \<in> cat_set. cat \<notin> existingCats}
         in if card missingCats > 0
            then
              (let t = ''Update binding for '' @ param_name;
                   w1 = log_event (TxStart t) w;
                   existingCats' = existingCats \<union> {cat \<in> missingCats. AllowsBoundParameters cat};
                   binding' = binding\<lparr>Categories := existingCats'\<rparr>;
                   doc = document w1;
                   w2 = w1\<lparr>document :=
                          doc\<lparr>ParameterBindings := (ParameterBindings doc)[i := (definition, binding')]\<rparr>\<rparr>
               in log_event (TxCommit t) w2)
            else w))"

text \<open>
  Lines 81 to 125: the parameter does not exist; it is created as a shared parameter and
  bound. The only step of the \<^verbatim>\<open>try\<close> block that the model lets fail is reading
  \<^verbatim>\<open>Groups\<close> of a shared parameter file that is still \<^verbatim>\<open>None\<close>. \<^verbatim>\<open>RollBack\<close> restores the
  document of \<^verbatim>\<open>t.Start()\<close>; the application's shared parameter file is not part of it.
\<close>

definition create_parameter :: "string \<Rightarrow> Category set \<Rightarrow> World \<Rightarrow> outcome \<times> World" where
  "create_parameter param_name cat_set w =
     (let t = ''Add Project Parameter: '' @ param_name;
          w1 = log_event (TxStart t) w;
          app = application w1;
          app1 = (case SharedParameterFile app of
                    None \<Rightarrow> app\<lparr>SharedParameterFile := TempSharedParameterFile app\<rparr>
                  | Some f \<Rightarrow> app)
      in case SharedParameterFile app1 of
           None \<Rightarrow>
             (Exited,
              alert (''Failed to create parameter: '' @ param_name @ [CHR 0x0A] @ repr AttributeError)
                (log_event (TxRollBack t) (w1\<lparr>document := document w, application := app1\<rparr>)))
         | Some groups \<Rightarrow>
             (let group_name = ''Grid Tools'';
                  found_group = find (\<lambda>g. DefinitionGroup.group_name g = group_name) groups;
                  shared_group = (case found_group of
                                    Some g \<Rightarrow> g
                                  | None \<Rightarrow> \<lparr>group_name = group_name, Definitions = []\<rparr>);
                  groups1 = (case found_group of Some g \<Rightarrow> groups | None \<Rightarrow> groups @ [shared_group]);
                  options = (if revitVersion app1 < 2023 then (param_name, Text)
                             else (param_name, Text));
                  existing_def = find (\<lambda>d. definition_name d = param_name) (Definitions shared_group);
                  binding = \<lparr>binding_kind = InstanceBinding, Categories = cat_set\<rparr>;
                  doc = document w1
              in case existing_def of
                   Some d \<Rightarrow>
                     (Returned,
                      log_event (TxCommit t)
                        (w1\<lparr>document := doc\<lparr>ParameterBindings := ParameterBindings doc @ [(d, binding)]\<rparr>,
                            application := app1\<lparr>SharedParameterFile := Some groups1\<rparr>\<rparr>))
                 | None \<Rightarrow>
                     (let new_def = \<lparr>definition_name = fst options, definition_type = snd options\<rparr>;
                          groups2 = map (\<lambda>g. if DefinitionGroup.group_name g = group_name
                                               then g\<lparr>Definitions := Definitions g @ [new_def]\<rparr>
                                               else g) groups1
                      in (Returned,
                          log_event (TxCommit t)
                            (w1\<lparr>document :=
                                  doc\<lparr>ParameterBindings := ParameterBindings doc @ [(new_def, binding)]\<rparr>,
                                application := app1\<lparr>SharedParameterFile := Some groups2\<rparr>\<rparr>)))))"

text \<open>Lines 29 to 125. The category set of lines 43 to 46 is a set of categories.\<close>

definition ensure_text_parameter :: "string \<Rightarrow> Category list \<Rightarrow> World \<Rightarrow> outcome \<times> World" where
  "ensure_text_parameter param_name categories w =
     (let bindingMap = ParameterBindings (document w);
          cat_set = {cat \<in> set categories. AllowsBoundParameters cat}
      in case find_definition param_name bindingMap of
           Some found \<Rightarrow> (Returned, update_binding param_name cat_set found w)
         | None \<Rightarrow> create_parameter param_name cat_set w)"

section \<open>Grid intersections\<close>

datatype SetComparisonResult =
  LeftEmpty | RightEmpty | BothEmpty | Disjoint | Overlap | Subset | Superset | Equal

text \<open>
  \<^verbatim>\<open>v.Curve.Intersect(h.Curve, results)\<close> belongs to the host's geometry kernel: it is a
  parameter, giving the comparison result and the points of the result array.
\<close>

type_synonym Intersect = "Curve \<Rightarrow> Curve \<Rightarrow> SetComparisonResult \<times> XYZ list"

text \<open>Lines 157 to 162: the inner loop, for one vertical grid.\<close>

fun intersections_with ::
  "Intersect \<Rightarrow> Grid \<Rightarrow> Grid list \<Rightarrow> intersection list \<Rightarrow> intersection list" where
  "intersections_with Intersect v [] intersections = intersections"
| "intersections_with Intersect v (h # h_grids) intersections =
     (case Intersect (Curve v) (Curve h) of
        (res, results) \<Rightarrow>
          if res = Overlap \<and> length results > 0
          then (let ip = results ! 0
                in intersections_with Intersect v h_grids (intersections @ [(ip, v, h)]))
          else intersections_with Intersect v h_grids intersections)"

fun get_grid_intersections_loop ::
  "Intersect \<Rightarrow> Grid list \<Rightarrow> Grid list \<Rightarrow> intersection list \<Rightarrow> intersection list" where
  "get_grid_intersections_loop Intersect [] h_grids intersections = intersections"
| "get_grid_intersections_loop Intersect (v # v_grids) h_grids intersections =
     get_grid_intersections_loop Intersect v_grids h_grids
       (intersections_with Intersect v h_grids intersections)"

definition get_grid_intersections :: "Intersect \<Rightarrow> Grid list \<Rightarrow> Grid list \<Rightarrow> intersection list" where
  "get_grid_intersections Intersect v_grids h_grids =
     get_grid_intersections_loop Intersect v_grids h_grids []"

text \<open>Lines 210 to 218: a grid is horizontal when \<^verbatim>\<open>abs(direction.X) > abs(direction.Y)\<close>.\<close>

definition is_horizontal :: "Grid \<Rightarrow> bool" where
  "is_horizontal grid = (\<bar>X (Direction (Curve grid))\<bar> > \<bar>Y (Direction (Curve grid))\<bar>)"

fun separate_grids :: "Grid list \<Rightarrow> Grid list \<times> Grid list \<Rightarrow> Grid list \<times> Grid list" where
  "separate_grids [] (vertical_grids, horizontal_grids) = (vertical_grids, horizontal_grids)"
| "separate_grids (grid # grids) (vertical_grids, horizontal_grids) =
     (if is_horizontal grid
      then separate_grids grids (vertical_grids, horizontal_grids @ [grid])
      else separate_grids grids (vertical_grids @ [grid], horizontal_grids))"

section \<open>The run\<close>

text \<open>
  What the host and the user hand to a run: the current selection, the elements the user
  clicks while the host asks for the starting element (none left means the pick is
  cancelled), and the geometry kernel.
\<close>

record Host =
  selection :: "ElementId list"
  clicks :: "ElementId list"
  Intersect :: Intersect





text \<open>
  Lines 224 to 273: the transaction and the report. A transaction that the script leaves
  open when it dies is discarded by the host.
\<close>

definition numbering_transaction ::
  "intersection list \<Rightarrow> XYZ \<Rightarrow> ElementId list \<Rightarrow> World \<Rightarrow> outcome \<times> World" where
  "numbering_transaction intersections start_point initial_sel_ids w =
     (let t = ''Assign Grid Square and Number'';
          w0 = log_event (TxStart t) w
      in case assign_parameters intersections start_point initial_sel_ids w0 of
           Inl e \<Rightarrow> (Raised e, log_event (TxRollBack t) w0)
         | Inr (w1, modified_elem_ids) \<Rightarrow>
             (let w2 = log_event (TxCommit t) w1
              in if card modified_elem_ids = length initial_sel_ids
                 then (Returned, alert ''Selected elements were successfully numbered.'' w2)
                 else (Returned, alert ''Not all elements were numbered.'' w2)))"




section \<open>Vocabulary for the properties\<close>

text \<open>The location, the writability and the text of a parameter, read through the document.\<close>

definition location_of :: "Document \<Rightarrow> ElementId \<Rightarrow> XYZ option" where
  "location_of doc eid =
     (case elements doc eid of None \<Rightarrow> None | Some elem \<Rightarrow> get_element_location elem)"

definition writable :: "Document \<Rightarrow> ElementId \<Rightarrow> string \<Rightarrow> bool" where
  "writable doc eid name =
     (case LookupParameter doc eid name of None \<Rightarrow> False | Some param \<Rightarrow> \<not> IsReadOnly param)"

definition value_of :: "Document \<Rightarrow> ElementId \<Rightarrow> string \<Rightarrow> string option" where
  "value_of doc eid name = map_option AsString (LookupParameter doc eid name)"

text \<open>
  \<open>best\<close> is the first entry of the list at minimum distance from \<open>pt\<close>: every entry
  before it is strictly farther, no entry after it is nearer.
\<close>

definition first_min :: "XYZ \<Rightarrow> intersection list \<Rightarrow> intersection \<Rightarrow> bool" where
  "first_min pt ints best =
     (\<exists>pre post. ints = pre @ best # post
        \<and> (\<forall>x\<in>set pre. DistanceTo pt (fst best) < DistanceTo pt (fst x))
        \<and> (\<forall>x\<in>set post. DistanceTo pt (fst best) \<le> DistanceTo pt (fst x)))"

text \<open>A run of parameter writes, as triples of element id, parameter name and text.\<close>

type_synonym param_write = "ElementId \<times> string \<times> string"

definition apply_writes :: "param_write list \<Rightarrow> Document \<Rightarrow> Document" where
  "apply_writes ws doc = fold (\<lambda>(eid, name, v). Set_doc eid name v) ws doc"

definition write_events :: "param_write list \<Rightarrow> event list" where
  "write_events ws = map (\<lambda>(eid, name, v). ParamSet eid name v) ws"

text \<open>The label the first loop writes to an element, if it writes one.\<close>

definition grid_square_for :: "intersection list \<Rightarrow> Document \<Rightarrow> ElementId \<Rightarrow> string option" where
  "grid_square_for intersections doc eid =
     (case location_of doc eid of
        None \<Rightarrow> None
      | Some pt \<Rightarrow>
          (case snd (closest_scan pt intersections (PosInf, None)) of
             None \<Rightarrow> None
           | Some closest \<Rightarrow>
               if writable doc eid ''Grid Square''
               then Some (Name (fst closest) @ ''-'' @ Name (snd closest))
               else None))"

definition grid_square_writes :: "intersection list \<Rightarrow> Document \<Rightarrow> ElementId list \<Rightarrow> param_write list" where
  "grid_square_writes intersections doc eids =
     concat (map (\<lambda>eid. case grid_square_for intersections doc eid of
                           None \<Rightarrow> []
                         | Some label \<Rightarrow> [(eid, ''Grid Square'', label)]) eids)"

text \<open>The selected ids that have a location, each with its distance from the start point.\<close>

definition located :: "Document \<Rightarrow> XYZ \<Rightarrow> ElementId list \<Rightarrow> (ElementId \<times> real) list" where
  "located doc start_point eids =
     concat (map (\<lambda>eid. case location_of doc eid of
                           None \<Rightarrow> []
                         | Some pt \<Rightarrow> [(eid, DistanceTo pt start_point)]) eids)"

text \<open>The writes of the second loop: the writable entries, numbered from \<open>num\<close> on.\<close>

definition number_writes :: "Document \<Rightarrow> (ElementId \<times> real) list \<Rightarrow> nat \<Rightarrow> param_write list" where
  "number_writes doc ewd num =
     (let targets = filter (\<lambda>eid. writable doc eid ''Number'') (map fst ewd)
      in map (\<lambda>(eid, i). (eid, ''Number'', str (num + i))) (zip targets [0..<length targets]))"

text \<open>
  The entries the second loop numbers, in its order: the located selected ids sorted by
  distance from the start point, without those whose "Number" cannot be written.
\<close>

definition ranked :: "Document \<Rightarrow> XYZ \<Rightarrow> ElementId list \<Rightarrow> (ElementId \<times> real) list" where
  "ranked doc start_point eids =
     filter (\<lambda>x. writable doc (fst x) ''Number'') (sort_key snd (located doc start_point eids))"

text \<open>All the writes of the transaction, in order.\<close>

definition all_writes :: "intersection list \<Rightarrow> XYZ \<Rightarrow> ElementId list \<Rightarrow> Document \<Rightarrow> param_write list" where
  "all_writes intersections start_point eids doc =
     grid_square_writes intersections doc eids
       @ number_writes doc (sort_key snd (located doc start_point eids)) 1"

text \<open>The ids that have a \<^verbatim>\<open>param.Set\<close> in a journal.\<close>

fun written_ids :: "event list \<Rightarrow> ElementId set" where
  "written_ids [] = {}"
| "written_ids (ParamSet eid name v # evs) = insert eid (written_ids evs)"
| "written_ids (e # evs) = written_ids evs"


text \<open>
  The shared parameter file that \<open>create_parameter\<close> works on: the one that is open, or
  else the one in the temporary folder.
\<close>

definition shared_groups :: "Application \<Rightarrow> DefinitionGroup list option" where
  "shared_groups app =
     (case SharedParameterFile app of None \<Rightarrow> TempSharedParameterFile app | Some f \<Rightarrow> Some f)"

text \<open>
  The definition that \<open>create_parameter\<close> binds: the one of that name in the group
  "Grid Tools" of the shared parameter file if there is one, a new text definition otherwise.
\<close>

definition bound_definition :: "string \<Rightarrow> DefinitionGroup list \<Rightarrow> Definition" where
  "bound_definition param_name groups =
     (case find (\<lambda>g. group_name g = ''Grid Tools'') groups of
        None \<Rightarrow> \<lparr>definition_name = param_name, definition_type = Text\<rparr>
      | Some g \<Rightarrow>
          (case find (\<lambda>d. definition_name d = param_name) (Definitions g) of
             None \<Rightarrow> \<lparr>definition_name = param_name, definition_type = Text\<rparr>
           | Some d \<Rightarrow> d))"

text \<open>
  The intersections as the specification words them: one tuple for every pair of a vertical
  and a horizontal grid for which the host reports an overlap with at least one result
  point, made of the first result point and the two grids.
\<close>

definition reports_overlap :: "Intersect \<Rightarrow> Grid \<Rightarrow> Grid \<Rightarrow> bool" where
  "reports_overlap intersect_fn v h =
     (fst (intersect_fn (Curve v) (Curve h)) = Overlap
      \<and> length (snd (intersect_fn (Curve v) (Curve h))) > 0)"

definition first_point :: "Intersect \<Rightarrow> Grid \<Rightarrow> Grid \<Rightarrow> XYZ" where
  "first_point intersect_fn v h = snd (intersect_fn (Curve v) (Curve h)) ! 0"

definition spec_grid_intersections :: "Intersect \<Rightarrow> Grid list \<Rightarrow> intersection list" where
  "spec_grid_intersections intersect_fn grids =
     concat (map (\<lambda>v. concat (map (\<lambda>h. if reports_overlap intersect_fn v h
                                          then [(first_point intersect_fn v h, v, h)] else [])
                                   (filter is_horizontal grids)))
                 (filter (\<lambda>g. \<not> is_horizontal g) grids))"

section \<open>Counting the steps\<close>

text \<open>
  Each function follows the loop of the same name and counts its iterations, one for each
  call of \<^verbatim>\<open>DistanceTo\<close>, \<^verbatim>\<open>Intersect\<close> or \<^verbatim>\<open>LookupParameter("Number")\<close>.
\<close>

fun T_closest_scan ::
  "XYZ \<Rightarrow> intersection list \<Rightarrow> py_float \<times> (Grid \<times> Grid) option \<Rightarrow> nat" where
  "T_closest_scan pt [] (min_dist, closest) = 0"
| "T_closest_scan pt ((ip, v_grid, h_grid) # rest) (min_dist, closest) =
     (let dist = DistanceTo pt ip in
      if float_less dist min_dist
      then 1 + T_closest_scan pt rest (Float dist, Some (v_grid, h_grid))
      else 1 + T_closest_scan pt rest (min_dist, closest))"

definition T_grid_square_body :: "intersection list \<Rightarrow> Element \<Rightarrow> nat" where
  "T_grid_square_body intersections elem =
     (case get_element_location elem of
        None \<Rightarrow> 0
      | Some pt \<Rightarrow> T_closest_scan pt intersections (PosInf, None))"

fun T_grid_square_loop ::
  "intersection list \<Rightarrow> ElementId list \<Rightarrow> World \<times> ElementId set \<Rightarrow> nat" where
  "T_grid_square_loop intersections [] s = 0"
| "T_grid_square_loop intersections (eid # eids) s =
     (case GetElement (document (fst s)) eid of
        None \<Rightarrow> 0
      | Some elem \<Rightarrow>
          T_grid_square_body intersections elem
            + T_grid_square_loop intersections eids (grid_square_body intersections eid elem s))"

fun T_elements_with_distance :: "Document \<Rightarrow> XYZ \<Rightarrow> ElementId list \<Rightarrow> nat" where
  "T_elements_with_distance doc start_point [] = 0"
| "T_elements_with_distance doc start_point (eid # eids) =
     (case GetElement doc eid of
        None \<Rightarrow> 0
      | Some elem \<Rightarrow>
          (case get_element_location elem of None \<Rightarrow> 0 | Some pt \<Rightarrow> 1)
            + T_elements_with_distance doc start_point eids)"

fun T_number_loop :: "(ElementId \<times> real) list \<Rightarrow> nat" where
  "T_number_loop [] = 0"
| "T_number_loop (x # rest) = 1 + T_number_loop rest"

fun T_intersections_with :: "Intersect \<Rightarrow> Grid \<Rightarrow> Grid list \<Rightarrow> nat" where
  "T_intersections_with intersect_fn v [] = 0"
| "T_intersections_with intersect_fn v (h # h_grids) = 1 + T_intersections_with intersect_fn v h_grids"

fun T_get_grid_intersections :: "Intersect \<Rightarrow> Grid list \<Rightarrow> Grid list \<Rightarrow> nat" where
  "T_get_grid_intersections intersect_fn [] h_grids = 0"
| "T_get_grid_intersections intersect_fn (v # v_grids) h_grids =
     T_intersections_with intersect_fn v h_grids + T_get_grid_intersections intersect_fn v_grids h_grids"

section \<open>Example inputs\<close>

text \<open>
  Two vertical grids A and B, one horizontal grid 1, crossing at (0, 0, 0) and (10, 0, 0);
  element 7 at (8, 0, 0) and element 8 at (1, 0, 0) with both parameters; element 9 without
  a location; element 5 at (2, 0, 0) with a read-only "Number".
\<close>

definition point :: "real \<Rightarrow> real \<Rightarrow> real \<Rightarrow> XYZ" where
  "point a b c = \<lparr>X = a, Y = b, Z = c\<rparr>"

definition line_along :: "XYZ \<Rightarrow> Curve" where
  "line_along direction = \<lparr>Direction = direction, Evaluate_half = Some (point 0 0 0)\<rparr>"

definition grid_A :: Grid where
  "grid_A = \<lparr>Name = ''A'', Curve = line_along (point 0 1 0)\<rparr>"

definition grid_B :: Grid where
  "grid_B = \<lparr>Name = ''B'', Curve = line_along (point 0 (-1) 0)\<rparr>"

definition grid_1 :: Grid where
  "grid_1 = \<lparr>Name = ''1'', Curve = line_along (point 1 0 0)\<rparr>"

definition example_intersections :: "intersection list" where
  "example_intersections = [(point 0 0 0, grid_A, grid_1), (point 10 0 0, grid_B, grid_1)]"

text \<open>A geometry kernel for the example: A and B cross grid 1, nothing else crosses.\<close>

definition example_Intersect :: Intersect where
  "example_Intersect c1 c2 =
     (if Direction c2 = point 1 0 0 \<and> Direction c1 = point 0 1 0 then (Overlap, [point 0 0 0])
      else if Direction c2 = point 1 0 0 \<and> Direction c1 = point 0 (-1) 0
      then (Overlap, [point 10 0 0])
      else (Disjoint, []))"

definition text_parameter :: Parameter where
  "text_parameter = \<lparr>AsString = [], IsReadOnly = False\<rparr>"

definition walls :: Category where
  "walls = \<lparr>category_name = ''Walls'', AllowsBoundParameters = True\<rparr>"

definition element_at :: "XYZ \<Rightarrow> Element" where
  "element_at p =
     \<lparr>Category = Some walls, Location = LocationPoint p,
      Parameters = [''Grid Square'' \<mapsto> text_parameter, ''Number'' \<mapsto> text_parameter]\<rparr>"

definition example_elements :: "ElementId \<rightharpoonup> Element" where
  "example_elements =
     [7 \<mapsto> element_at (point 8 0 0),
      8 \<mapsto> element_at (point 1 0 0),
      9 \<mapsto> (element_at (point 0 0 0))\<lparr>Location := NoLocation\<rparr>,
      5 \<mapsto> (element_at (point 2 0 0))
            \<lparr>Parameters := [''Grid Square'' \<mapsto> text_parameter,
                             ''Number'' \<mapsto> text_parameter\<lparr>IsReadOnly := True\<rparr>]\<rparr>]"

definition example_document :: Document where
  "example_document =
     \<lparr>elements = example_elements, ParameterBindings = [], Grids = [grid_A, grid_1, grid_B]\<rparr>"

definition example_application :: Application where
  "example_application =
     \<lparr>SharedParameterFile = None, TempSharedParameterFile = Some [], revitVersion = 2024\<rparr>"

definition example_world :: World where
  "example_world =
     \<lparr>document = example_document, application = example_application, journal = []\<rparr>"

text \<open>The example document with a project parameter "Number" that is not a text parameter.\<close>

definition integer_number_world :: World where
  "integer_number_world =
     example_world\<lparr>document := example_document\<lparr>ParameterBindings :=
       [(\<lparr>definition_name = ''Number'', definition_type = OtherType\<rparr>,
         \<lparr>binding_kind = InstanceBinding, Categories = {walls}\<rparr>)]\<rparr>\<rparr>"



section \<open>The writes of the transaction\<close>

lemma first_min_here:
  assumes "\<forall>x\<in>set rest. DistanceTo pt (fst best) \<le> DistanceTo pt (fst x)"
  shows "first_min pt (best # rest) best"
  unfolding first_min_def
  by (rule exI [of _ "[]"], rule exI [of _ rest]) (simp add: assms)

lemma first_min_Cons:
  assumes "first_min pt rest best" and "DistanceTo pt (fst best) < DistanceTo pt (fst a)"
  shows "first_min pt (a # rest) best"
proof -
  from assms(1) obtain pre post where p: "rest = pre @ best # post"
    "\<forall>x\<in>set pre. DistanceTo pt (fst best) < DistanceTo pt (fst x)"
    "\<forall>x\<in>set post. DistanceTo pt (fst best) \<le> DistanceTo pt (fst x)"
    unfolding first_min_def by blast
  have "a # rest = (a # pre) @ best # post" using p(1) by simp
  moreover have "\<forall>x\<in>set (a # pre). DistanceTo pt (fst best) < DistanceTo pt (fst x)"
    using p(2) assms(2) by simp
  ultimately show ?thesis unfolding first_min_def using p(3) by blast
qed

lemma closest_scan_Float:
  "(closest_scan pt ints (Float m, c) = (Float m, c) \<and> (\<forall>x\<in>set ints. m \<le> DistanceTo pt (fst x)))
   \<or> (\<exists>ip v h. first_min pt ints (ip, v, h)
        \<and> closest_scan pt ints (Float m, c) = (Float (DistanceTo pt ip), Some (v, h))
        \<and> DistanceTo pt ip < m)"
proof (induction ints arbitrary: m c)
  case Nil
  show ?case by simp
next
  case (Cons a ints)
  obtain ip0 v0 h0 where a: "a = (ip0, v0, h0)" by (cases a) auto
  let ?d = "DistanceTo pt ip0"
  show ?case
  proof (cases "?d < m")
    case True
    then have step: "closest_scan pt (a # ints) (Float m, c) = closest_scan pt ints (Float ?d, Some (v0, h0))"
      by (simp add: a)
    from Cons.IH [of ?d "Some (v0, h0)"] show ?thesis
    proof (elim disjE exE conjE)
      assume A: "closest_scan pt ints (Float ?d, Some (v0, h0)) = (Float ?d, Some (v0, h0))"
         "\<forall>x\<in>set ints. ?d \<le> DistanceTo pt (fst x)"
      have "first_min pt (a # ints) (ip0, v0, h0)"
        unfolding a by (rule first_min_here) (simp add: A(2))
      then show ?thesis using A(1) step True by auto
    next
      fix ip v h
      assume B: "first_min pt ints (ip, v, h)"
        "closest_scan pt ints (Float ?d, Some (v0, h0)) = (Float (DistanceTo pt ip), Some (v, h))"
        "DistanceTo pt ip < ?d"
      have "first_min pt (a # ints) (ip, v, h)"
        by (rule first_min_Cons [OF B(1)]) (simp add: a B(3))
      moreover have "DistanceTo pt ip < m" using B(3) True by simp
      ultimately show ?thesis using B(2) step by auto
    qed
  next
    case False
    then have step: "closest_scan pt (a # ints) (Float m, c) = closest_scan pt ints (Float m, c)"
      by (simp add: a)
    from Cons.IH [of m c] show ?thesis
    proof (elim disjE exE conjE)
      assume A: "closest_scan pt ints (Float m, c) = (Float m, c)"
         "\<forall>x\<in>set ints. m \<le> DistanceTo pt (fst x)"
      then show ?thesis using step False by (simp add: a)
    next
      fix ip v h
      assume B: "first_min pt ints (ip, v, h)"
        "closest_scan pt ints (Float m, c) = (Float (DistanceTo pt ip), Some (v, h))"
        "DistanceTo pt ip < m"
      have "first_min pt (a # ints) (ip, v, h)"
        by (rule first_min_Cons [OF B(1)]) (use B(3) False in \<open>simp add: a\<close>)
      then show ?thesis using B(2,3) step by auto
    qed
  qed
qed

lemma closest_scan_first_min:
  assumes "ints \<noteq> []"
  shows "\<exists>ip v h. first_min pt ints (ip, v, h)
        \<and> snd (closest_scan pt ints (PosInf, None)) = Some (v, h)"
proof -
  obtain ip0 v0 h0 rest where i: "ints = (ip0, v0, h0) # rest"
    using assms by (cases ints) auto
  let ?d = "DistanceTo pt ip0"
  have step: "closest_scan pt ints (PosInf, None) = closest_scan pt rest (Float ?d, Some (v0, h0))"
    by (simp add: i)
  from closest_scan_Float [of pt rest ?d "Some (v0, h0)"] show ?thesis
  proof (elim disjE exE conjE)
    assume A: "closest_scan pt rest (Float ?d, Some (v0, h0)) = (Float ?d, Some (v0, h0))"
               "\<forall>x\<in>set rest. ?d \<le> DistanceTo pt (fst x)"
    have "first_min pt ints (ip0, v0, h0)"
      unfolding i by (rule first_min_here) (simp add: A(2))
    then show ?thesis using A(1) step by auto
  next
    fix ip v h
    assume B: "first_min pt rest (ip, v, h)"
        "closest_scan pt rest (Float ?d, Some (v0, h0)) = (Float (DistanceTo pt ip), Some (v, h))"
        "DistanceTo pt ip < ?d"
    have "first_min pt ints (ip, v, h)"
      unfolding i by (rule first_min_Cons [OF B(1)]) (simp add: B(3))
    then show ?thesis using B(2) step by auto
  qed
qed



lemma dom_Set_doc: "(elements (Set_doc eid name v doc) x = None) = (elements doc x = None)"
  by (simp add: Set_doc_def split: option.splits)

lemma location_of_Set_doc: "location_of (Set_doc eid name v doc) x = location_of doc x"
  by (simp add: Set_doc_def location_of_def split: option.splits)

lemma writable_Set_doc: "writable (Set_doc eid name v doc) x n = writable doc x n"
  by (auto simp add: Set_doc_def writable_def LookupParameter_def split: option.splits)

lemma value_of_Set_doc:
  "value_of (Set_doc eid name v doc) x n =
     (if x = eid \<and> n = name \<and> value_of doc x n \<noteq> None then Some v else value_of doc x n)"
  by (auto simp add: Set_doc_def value_of_def LookupParameter_def split: option.splits)


lemma grid_square_for_Set_doc:
  "grid_square_for ints (Set_doc eid name v doc) x = grid_square_for ints doc x"
  by (simp add: grid_square_for_def location_of_Set_doc writable_Set_doc cong: option.case_cong)

lemma grid_square_writes_Set_doc:
  "grid_square_writes ints (Set_doc eid name v doc) eids = grid_square_writes ints doc eids"
  by (simp add: grid_square_writes_def grid_square_for_Set_doc)

lemma grid_square_body_eq:
  assumes "GetElement (document (fst s)) eid = Some elem"
  shows "grid_square_body ints eid elem s =
    (case grid_square_for ints (document (fst s)) eid of
       None \<Rightarrow> s
     | Some label \<Rightarrow> (param_Set eid ''Grid Square'' label (fst s), insert eid (snd s)))"
  using assms
  by (auto simp add: grid_square_body_def grid_square_for_def location_of_def writable_def
      GetElement_def Let_def split: option.splits)

lemma apply_writes_Nil: "apply_writes [] doc = doc"
  by (simp add: apply_writes_def)

lemma apply_writes_Cons:
  "apply_writes ((eid, name, v) # ws) doc = apply_writes ws (Set_doc eid name v doc)"
  by (simp add: apply_writes_def)

lemma apply_writes_append:
  "apply_writes (ws @ ws') doc = apply_writes ws' (apply_writes ws doc)"
  by (simp add: apply_writes_def)

lemma grid_square_loop_eq:
  assumes "\<forall>eid\<in>set eids. elements (document w) eid \<noteq> None"
  shows "grid_square_loop ints eids (w, m) =
    Inr (w\<lparr>document := apply_writes (grid_square_writes ints (document w) eids) (document w),
           journal := journal w @ write_events (grid_square_writes ints (document w) eids)\<rparr>,
         m \<union> fst ` set (grid_square_writes ints (document w) eids))"
  using assms
proof (induction eids arbitrary: w m)
  case Nil
  show ?case by (simp add: grid_square_writes_def apply_writes_Nil write_events_def)
next
  case (Cons eid eids)
  then obtain elem where elem: "GetElement (document w) eid = Some elem"
    by (auto simp add: GetElement_def)
  show ?case
  proof (cases "grid_square_for ints (document w) eid")
    case None
    have body: "grid_square_body ints eid elem (w, m) = (w, m)"
      using grid_square_body_eq [of "(w, m)" eid elem ints] elem None by simp
    have ws: "grid_square_writes ints (document w) (eid # eids) = grid_square_writes ints (document w) eids"
      using None by (simp add: grid_square_writes_def)
    have "\<forall>eid\<in>set eids. elements (document w) eid \<noteq> None" using Cons.prems by simp
    from Cons.IH [OF this, of m] show ?thesis
      by (simp add: elem body ws)
  next
    case (Some label)
    let ?w1 = "param_Set eid ''Grid Square'' label w"
    have body: "grid_square_body ints eid elem (w, m) = (?w1, insert eid m)"
      using grid_square_body_eq [of "(w, m)" eid elem ints] elem Some by simp
    have ws: "grid_square_writes ints (document w) (eid # eids) =
        (eid, ''Grid Square'', label) # grid_square_writes ints (document w) eids"
      using Some by (simp add: grid_square_writes_def)
    have doc1: "document ?w1 = Set_doc eid ''Grid Square'' label (document w)"
      by (simp add: param_Set_def)
    have ws1: "grid_square_writes ints (document ?w1) eids = grid_square_writes ints (document w) eids"
      by (simp add: doc1 grid_square_writes_Set_doc)
    have "\<forall>eid\<in>set eids. elements (document ?w1) eid \<noteq> None"
      using Cons.prems by (simp add: doc1 dom_Set_doc)
    from Cons.IH [OF this, of "insert eid m"] show ?thesis
      by (simp add: elem body ws grid_square_writes_Set_doc apply_writes_Cons write_events_def param_Set_def)
  qed
qed


lemma number_writes_Nil: "number_writes doc [] num = []"
  by (simp add: number_writes_def)

lemma numbered_Cons:
  "map (\<lambda>(eid, i). (eid, name, str (num + i))) (zip (e # targets) [0..<Suc (length targets)]) =
   (e, name, str num) # map (\<lambda>(eid, i). (eid, name, str (Suc num + i))) (zip targets [0..<length targets])"
proof -
  have "[0..<Suc (length targets)] = 0 # map Suc [0..<length targets]"
    by (simp add: upt_conv_Cons map_Suc_upt del: upt_Suc)
  then show ?thesis
    by (simp add: zip_map2 case_prod_unfold comp_def del: upt_Suc)
qed

lemma number_writes_Cons:
  "number_writes doc ((eid, distance) # rest) num =
     (if writable doc eid ''Number''
      then (eid, ''Number'', str num) # number_writes doc rest (Suc num)
      else number_writes doc rest num)"
  unfolding number_writes_def Let_def
  using numbered_Cons [of "''Number''" num eid "filter (\<lambda>eid. writable doc eid ''Number'') (map fst rest)"]
  by simp

lemma number_writes_Set_doc:
  "number_writes (Set_doc eid name v doc) xs num = number_writes doc xs num"
  by (simp add: number_writes_def writable_Set_doc)

lemma number_loop_eq:
  "number_loop xs (w, m, num) =
    (w\<lparr>document := apply_writes (number_writes (document w) xs num) (document w),
       journal := journal w @ write_events (number_writes (document w) xs num)\<rparr>,
     m \<union> fst ` set (number_writes (document w) xs num),
     num + length (number_writes (document w) xs num))"
proof (induction xs arbitrary: w m num)
  case Nil
  show ?case by (simp add: number_writes_Nil apply_writes_Nil write_events_def)
next
  case (Cons x xs)
  obtain eid distance where x: "x = (eid, distance)" by (cases x) auto
  show ?case
  proof (cases "writable (document w) eid ''Number''")
    case True
    then obtain param where p: "LookupParameter (document w) eid ''Number'' = Some param"
      "\<not> IsReadOnly param"
      by (auto simp add: writable_def split: option.splits)
    show ?thesis
      unfolding x
      by (simp add: p True number_writes_Cons Cons.IH number_writes_Set_doc apply_writes_Cons
          write_events_def param_Set_def)
  next
    case False
    then have "number_loop ((eid, distance) # xs) (w, m, num) = number_loop xs (w, m, num)"
      by (auto simp add: writable_def split: option.splits)
    then show ?thesis
      unfolding x by (simp add: False number_writes_Cons Cons.IH)
  qed
qed

lemma elements_with_distance_eq:
  assumes "\<forall>eid\<in>set eids. elements doc eid \<noteq> None"
  shows "elements_with_distance doc start_point eids = Inr (located doc start_point eids)"
  using assms
proof (induction eids)
  case Nil
  show ?case by (simp add: located_def)
next
  case (Cons eid eids)
  then obtain elem where elem: "elements doc eid = Some elem" by auto
  have "elements_with_distance doc start_point eids = Inr (located doc start_point eids)"
    using Cons by simp
  then show ?case
    by (simp add: elem GetElement_def located_def location_of_def split: option.splits)
qed

lemma location_of_apply_writes: "location_of (apply_writes ws doc) x = location_of doc x"
proof (induction ws arbitrary: doc)
  case Nil
  show ?case by (simp add: apply_writes_Nil)
next
  case (Cons a ws)
  obtain eid name v where a: "a = (eid, name, v)" by (cases a) auto
  show ?case unfolding a apply_writes_Cons Cons.IH by (rule location_of_Set_doc)
qed

lemma writable_apply_writes: "writable (apply_writes ws doc) x n = writable doc x n"
proof (induction ws arbitrary: doc)
  case Nil
  show ?case by (simp add: apply_writes_Nil)
next
  case (Cons a ws)
  obtain eid name v where a: "a = (eid, name, v)" by (cases a) auto
  show ?case unfolding a apply_writes_Cons Cons.IH by (rule writable_Set_doc)
qed

lemma dom_apply_writes: "(elements (apply_writes ws doc) x = None) = (elements doc x = None)"
proof (induction ws arbitrary: doc)
  case Nil
  show ?case by (simp add: apply_writes_Nil)
next
  case (Cons a ws)
  obtain eid name v where a: "a = (eid, name, v)" by (cases a) auto
  show ?case unfolding a apply_writes_Cons Cons.IH by (rule dom_Set_doc)
qed

lemma located_apply_writes: "located (apply_writes ws doc) sp eids = located doc sp eids"
  by (simp add: located_def location_of_apply_writes)

lemma number_writes_apply_writes:
  "number_writes (apply_writes ws doc) xs num = number_writes doc xs num"
  by (simp add: number_writes_def writable_apply_writes)

lemma assign_parameters_eq:
  assumes "\<forall>eid\<in>set sel. elements (document w) eid \<noteq> None"
  shows "assign_parameters ints sp sel w =
    Inr (w\<lparr>document := apply_writes (all_writes ints sp sel (document w)) (document w),
           journal := journal w @ write_events (all_writes ints sp sel (document w))\<rparr>,
         fst ` set (all_writes ints sp sel (document w)))"
proof -
  let ?ws1 = "grid_square_writes ints (document w) sel"
  let ?d1 = "apply_writes ?ws1 (document w)"
  have valid1: "\<forall>eid\<in>set sel. elements ?d1 eid \<noteq> None"
    using assms by (simp add: dom_apply_writes)
  show ?thesis
    unfolding assign_parameters_def all_writes_def
    by (simp add: grid_square_loop_eq [OF assms] elements_with_distance_eq [OF valid1]
        number_loop_eq located_apply_writes number_writes_apply_writes apply_writes_append
        write_events_def image_Un)
qed


lemma grid_square_for_first_min:
  assumes "location_of doc eid = Some pt" and "ints \<noteq> []" and "writable doc eid ''Grid Square''"
  shows "\<exists>ip v h. first_min pt ints (ip, v, h)
           \<and> grid_square_for ints doc eid = Some (Name v @ ''-'' @ Name h)"
proof -
  from closest_scan_first_min [OF assms(2), of pt] obtain ip v h where
    "first_min pt ints (ip, v, h)" "snd (closest_scan pt ints (PosInf, None)) = Some (v, h)"
    by blast
  then show ?thesis using assms(1,3) by (auto simp add: grid_square_for_def)
qed

lemma set_grid_square_writes:
  "set (grid_square_writes ints doc eids) =
     {(e, ''Grid Square'', l) | e l. e \<in> set eids \<and> grid_square_for ints doc e = Some l}"
  by (auto simp add: grid_square_writes_def split: option.splits)

lemma set_number_writes:
  assumes "(e, n, v) \<in> set (number_writes doc xs k)"
  shows "n = ''Number'' \<and> e \<in> fst ` set xs \<and> writable doc e ''Number''"
  using assms
proof (induction xs arbitrary: k)
  case Nil
  then show ?case by (simp add: number_writes_Nil)
next
  case (Cons x xs)
  obtain eid distance where x: "x = (eid, distance)" by (cases x) auto
  show ?case
  proof (cases "writable doc eid ''Number''")
    case True
    with Cons.prems have "(e, n, v) = (eid, ''Number'', str k)
        \<or> (e, n, v) \<in> set (number_writes doc xs (Suc k))"
      by (simp add: x number_writes_Cons)
    then show ?thesis
    proof
      assume "(e, n, v) = (eid, ''Number'', str k)"
      then show ?thesis using True by (simp add: x)
    next
      assume "(e, n, v) \<in> set (number_writes doc xs (Suc k))"
      from Cons.IH [OF this] show ?thesis by simp
    qed
  next
    case False
    with Cons.prems have "(e, n, v) \<in> set (number_writes doc xs k)"
      by (simp add: x number_writes_Cons)
    from Cons.IH [OF this] show ?thesis by simp
  qed
qed

lemma value_of_apply_writes_const:
  assumes "\<forall>v. (x, name, v) \<in> set ws \<longrightarrow> v = v0"
    and "value_of doc x name = Some v0 \<or> ((x, name, v0) \<in> set ws \<and> value_of doc x name \<noteq> None)"
  shows "value_of (apply_writes ws doc) x name = Some v0"
  using assms
proof (induction ws arbitrary: doc)
  case Nil
  then show ?case by (simp add: apply_writes_Nil)
next
  case (Cons a ws)
  obtain e n v where a: "a = (e, n, v)" by (cases a) auto
  let ?doc1 = "Set_doc e n v doc"
  have all: "\<forall>v. (x, name, v) \<in> set ws \<longrightarrow> v = v0" using Cons.prems(1) by simp
  have some: "value_of doc x name \<noteq> None" using Cons.prems(2) by auto
  have "value_of ?doc1 x name = Some v0 \<or> ((x, name, v0) \<in> set ws \<and> value_of ?doc1 x name \<noteq> None)"
  proof (cases "x = e \<and> name = n")
    case True
    then have "(x, name, v) \<in> set (a # ws)" by (simp add: a)
    with Cons.prems(1) have "v = v0" by blast
    then show ?thesis using True some by (simp add: value_of_Set_doc)
  next
    case False
    then have same: "value_of ?doc1 x name = value_of doc x name"
      unfolding value_of_Set_doc by (cases "x = e") simp_all
    from Cons.prems(2) show ?thesis
    proof
      assume "value_of doc x name = Some v0"
      then show ?thesis using same by simp
    next
      assume "(x, name, v0) \<in> set (a # ws) \<and> value_of doc x name \<noteq> None"
      then have "(x, name, v0) \<in> set ws" using False by (auto simp add: a)
      then show ?thesis using same some by simp
    qed
  qed
  from Cons.IH [OF all this] show ?case by (simp add: a apply_writes_Cons)
qed

lemma value_of_apply_writes_untouched:
  assumes "\<forall>v. (x, name, v) \<notin> set ws"
  shows "value_of (apply_writes ws doc) x name = value_of doc x name"
  using assms
proof (induction ws arbitrary: doc)
  case Nil
  then show ?case by (simp add: apply_writes_Nil)
next
  case (Cons a ws)
  obtain e n v where a: "a = (e, n, v)" by (cases a) auto
  have rest: "\<forall>v. (x, name, v) \<notin> set ws" using Cons.prems by simp
  have "(x, name, v) \<notin> set (a # ws)" using Cons.prems by blast
  then have "\<not> (x = e \<and> name = n)" by (simp add: a)
  then have "value_of (Set_doc e n v doc) x name = value_of doc x name"
    unfolding value_of_Set_doc by (cases "x = e") simp_all
  then show ?case using Cons.IH [OF rest, of "Set_doc e n v doc"] by (simp add: a apply_writes_Cons)
qed


lemma writable_value_of: "writable doc eid name \<Longrightarrow> value_of doc eid name \<noteq> None"
  by (auto simp add: writable_def value_of_def split: option.splits)

section \<open>The numbers of the second loop\<close>

lemma str_nonempty: "str n \<noteq> []"
  by (subst str.simps) simp

lemma last_str: "last (str n) = digit_char (n mod 10)"
  by (subst str.simps) simp

lemma butlast_str: "butlast (str n) = (if n < 10 then [] else str (n div 10))"
  by (subst str.simps) simp

lemma digit_char_inj:
  assumes "a < 10" and "b < 10" and "digit_char a = digit_char b"
  shows "a = b"
proof -
  have a: "a \<in> {0, 1, 2, 3, 4, 5, 6, 7, 8, 9}" using assms(1) by auto
  have b: "b \<in> {0, 1, 2, 3, 4, 5, 6, 7, 8, 9}" using assms(2) by auto
  from a b assms(3) show ?thesis
    by (auto simp add: digit_char_def)
qed

lemma str_inj: "str a = str b \<Longrightarrow> a = b"
proof (induction a arbitrary: b rule: less_induct)
  case (less a)
  have "digit_char (a mod 10) = digit_char (b mod 10)"
    using less.prems last_str [of a] last_str [of b] by simp
  then have m: "a mod 10 = b mod 10"
    by (intro digit_char_inj) simp_all
  have bl: "(if a < 10 then [] else str (a div 10)) = (if b < 10 then [] else str (b div 10))"
    using less.prems butlast_str [of a] butlast_str [of b] by simp
  show ?case
  proof (cases "a < 10")
    case True
    then have "b < 10" using bl str_nonempty [of "b div 10"] by (auto split: if_splits)
    then show ?thesis using True m by simp
  next
    case False
    then have b10: "\<not> b < 10" using bl str_nonempty [of "a div 10"] by (auto split: if_splits)
    then have "str (a div 10) = str (b div 10)" using bl False by simp
    moreover have "a div 10 < a" using False by simp
    ultimately have "a div 10 = b div 10" using less.IH by blast
    then show ?thesis using m by (metis div_mult_mod_eq)
  qed
qed


lemma set_located:
  "set (located doc sp eids) =
     {(eid, DistanceTo pt sp) | eid pt. eid \<in> set eids \<and> location_of doc eid = Some pt}"
proof (induction eids)
  case Nil
  show ?case by (simp add: located_def)
next
  case (Cons e eids)
  have step: "located doc sp (e # eids) =
      (case location_of doc e of None \<Rightarrow> [] | Some pt \<Rightarrow> [(e, DistanceTo pt sp)])
        @ located doc sp eids"
    by (simp add: located_def)
  show ?case
  proof (cases "location_of doc e")
    case None
    then show ?thesis unfolding step using Cons.IH by auto
  next
    case (Some pt)
    then show ?thesis unfolding step using Cons.IH by auto
  qed
qed

lemma map_fst_located:
  "map fst (located doc sp eids) = filter (\<lambda>eid. location_of doc eid \<noteq> None) eids"
  by (induction eids) (simp_all add: located_def split: option.splits)

lemma distinct_ranked:
  assumes "distinct eids"
  shows "distinct (map fst (ranked doc sp eids))"
proof -
  let ?xs = "located doc sp eids"
  have d: "distinct (map fst ?xs)" using assms by (simp add: map_fst_located)
  then have "distinct ?xs" and "inj_on fst (set ?xs)" by (simp_all add: distinct_map)
  then have "distinct (sort_key snd ?xs)" and "inj_on fst (set (sort_key snd ?xs))" by simp_all
  then have "distinct (map fst (sort_key snd ?xs))" by (simp add: distinct_map)
  then show ?thesis unfolding ranked_def by (rule distinct_map_filter)
qed

lemma sorted_ranked: "sorted (map snd (ranked doc sp eids))"
  unfolding ranked_def by (rule sorted_filter) (rule sorted_sort_key)

lemma set_ranked:
  "set (ranked doc sp eids) =
     {(eid, DistanceTo pt sp) | eid pt.
        eid \<in> set eids \<and> location_of doc eid = Some pt \<and> writable doc eid ''Number''}"
  unfolding ranked_def by (auto simp add: set_located)

lemma number_writes_ranked:
  "number_writes doc (sort_key snd (located doc sp eids)) k =
     map (\<lambda>i. (fst (ranked doc sp eids ! i), ''Number'', str (k + i)))
       [0..<length (ranked doc sp eids)]"
proof -
  let ?xs = "sort_key snd (located doc sp eids)"
  let ?R = "ranked doc sp eids"
  have targets: "filter (\<lambda>eid. writable doc eid ''Number'') (map fst ?xs) = map fst ?R"
    by (simp add: ranked_def filter_map comp_def)
  show ?thesis
    unfolding number_writes_def Let_def targets
    by (rule nth_equalityI) simp_all
qed

lemma in_number_writes_ranked:
  "((e, n, v) \<in> set (number_writes doc (sort_key snd (located doc sp eids)) k)) =
     (\<exists>i<length (ranked doc sp eids). e = fst (ranked doc sp eids ! i) \<and> n = ''Number''
        \<and> v = str (k + i))"
  unfolding number_writes_ranked by auto


lemma number_write_unique:
  assumes "distinct (map fst (ranked doc sp eids))" and "i < length (ranked doc sp eids)"
    and "(fst (ranked doc sp eids ! i), ''Number'', v) \<in> set (all_writes ints sp eids doc)"
  shows "v = str (Suc i)"
proof -
  let ?R = "ranked doc sp eids"
  have "(fst (?R ! i), ''Number'', v) \<notin> set (grid_square_writes ints doc eids)"
    by (simp add: set_grid_square_writes)
  with assms(3) have "(fst (?R ! i), ''Number'', v)
      \<in> set (number_writes doc (sort_key snd (located doc sp eids)) 1)"
    by (simp add: all_writes_def)
  then obtain j where j: "j < length ?R" "fst (?R ! i) = fst (?R ! j)" "v = str (1 + j)"
    unfolding in_number_writes_ranked by blast
  have "map fst ?R ! i = map fst ?R ! j" using j(1,2) assms(2) by simp
  moreover have "i < length (map fst ?R)" "j < length (map fst ?R)" using assms(2) j(1) by simp_all
  ultimately have "i = j" using nth_eq_iff_index_eq [OF assms(1)] by blast
  then show ?thesis using j(3) by simp
qed

lemma number_write_present:
  assumes "i < length (ranked doc sp eids)"
  shows "(fst (ranked doc sp eids ! i), ''Number'', str (Suc i)) \<in> set (all_writes ints sp eids doc)"
proof -
  have "(fst (ranked doc sp eids ! i), ''Number'', str (1 + i))
      \<in> set (number_writes doc (sort_key snd (located doc sp eids)) 1)"
    unfolding in_number_writes_ranked using assms by blast
  then show ?thesis by (simp add: all_writes_def)
qed

lemma number_write_absent:
  assumes "eid \<notin> fst ` set (ranked doc sp eids)"
  shows "(eid, ''Number'', v) \<notin> set (all_writes ints sp eids doc)"
proof
  assume "(eid, ''Number'', v) \<in> set (all_writes ints sp eids doc)"
  moreover have "(eid, ''Number'', v) \<notin> set (grid_square_writes ints doc eids)"
    by (simp add: set_grid_square_writes)
  ultimately have "(eid, ''Number'', v) \<in> set (number_writes doc (sort_key snd (located doc sp eids)) 1)"
    by (simp add: all_writes_def)
  then obtain j where "j < length (ranked doc sp eids)" "eid = fst (ranked doc sp eids ! j)"
    unfolding in_number_writes_ranked by blast
  then have "eid \<in> fst ` set (ranked doc sp eids)" by (metis image_eqI nth_mem)
  with assms show False by simp
qed

lemma ranked_writable:
  assumes "i < length (ranked doc sp eids)"
  shows "writable doc (fst (ranked doc sp eids ! i)) ''Number''"
proof -
  have "ranked doc sp eids ! i \<in> set (ranked doc sp eids)" using assms by simp
  then show ?thesis unfolding ranked_def by simp
qed

lemma sorted_nearer_first:
  assumes "sorted (map snd R)" and "i < length R" and "j < length R"
    and "snd (R ! i) < snd (R ! j)"
  shows "i < j"
proof (rule ccontr)
  assume "\<not> i < j"
  then have "j \<le> i" by simp
  then have "map snd R ! j \<le> map snd R ! i"
    using assms(1,2) by (simp add: sorted_iff_nth_mono del: nth_map)
  then show False using assms(2,3,4) by simp
qed

section \<open>The transaction and its report\<close>

lemma written_ids_append: "written_ids (xs @ ys) = written_ids xs \<union> written_ids ys"
  by (induction xs rule: written_ids.induct) simp_all

lemma written_ids_write_events: "written_ids (write_events ws) = fst ` set ws"
proof (induction ws)
  case Nil
  show ?case by (simp add: write_events_def)
next
  case (Cons a ws)
  obtain e n v where a: "a = (e, n, v)" by (cases a) auto
  have "write_events (a # ws) = ParamSet e n v # write_events ws"
    by (simp add: write_events_def a)
  then show ?case using Cons.IH by (simp add: a)
qed

lemma closest_scan_None_iff: "(snd (closest_scan pt ints (PosInf, None)) = None) = (ints = [])"
proof (cases "ints = []")
  case True
  then show ?thesis by simp
next
  case False
  from closest_scan_first_min [OF False, of pt] show ?thesis using False by auto
qed

lemma grid_square_for_Some_iff:
  "(grid_square_for ints doc eid \<noteq> None) =
     (location_of doc eid \<noteq> None \<and> ints \<noteq> [] \<and> writable doc eid ''Grid Square'')"
proof (cases "location_of doc eid")
  case None
  then show ?thesis by (simp add: grid_square_for_def)
next
  case (Some pt)
  show ?thesis
  proof (cases "snd (closest_scan pt ints (PosInf, None))")
    case None
    then have "ints = []" by (simp add: closest_scan_None_iff)
    then show ?thesis using Some by (simp add: grid_square_for_def)
  next
    case (Some c)
    then have "ints \<noteq> []" using closest_scan_None_iff [of pt ints] by auto
    then show ?thesis using Some \<open>location_of doc eid = Some pt\<close>
      by (simp add: grid_square_for_def)
  qed
qed

lemma fst_set_grid_square_writes:
  "fst ` set (grid_square_writes ints doc eids) =
     {eid \<in> set eids. grid_square_for ints doc eid \<noteq> None}"
  unfolding set_grid_square_writes by force

lemma fst_set_ranked:
  "fst ` set (ranked doc sp eids) =
     {eid \<in> set eids. location_of doc eid \<noteq> None \<and> writable doc eid ''Number''}"
  unfolding set_ranked by force

lemma fst_set_number_writes:
  "fst ` set (number_writes doc (sort_key snd (located doc sp eids)) k) = fst ` set (ranked doc sp eids)"
proof -
  let ?R = "ranked doc sp eids"
  have "map fst (number_writes doc (sort_key snd (located doc sp eids)) k)
      = map fst (map (\<lambda>i. ?R ! i) [0..<length ?R])"
    unfolding number_writes_ranked by simp
  also have "\<dots> = map fst ?R" by (simp only: map_nth)
  finally have "set (map fst (number_writes doc (sort_key snd (located doc sp eids)) k))
      = set (map fst ?R)" by simp
  then show ?thesis by simp
qed

lemma fst_set_all_writes:
  "fst ` set (all_writes ints sp eids doc) =
     {eid \<in> set eids.
        (location_of doc eid \<noteq> None \<and> ints \<noteq> [] \<and> writable doc eid ''Grid Square'')
        \<or> (location_of doc eid \<noteq> None \<and> writable doc eid ''Number'')}"
  unfolding all_writes_def set_append image_Un fst_set_number_writes fst_set_ranked
    fst_set_grid_square_writes grid_square_for_Some_iff
  by blast

lemma numbering_transaction_eq:
  assumes "\<forall>eid\<in>set sel. elements (document w) eid \<noteq> None"
  shows "numbering_transaction ints sp sel w =
    (Returned,
     w\<lparr>document := apply_writes (all_writes ints sp sel (document w)) (document w),
       journal := journal w
         @ ([TxStart ''Assign Grid Square and Number'']
            @ write_events (all_writes ints sp sel (document w))
            @ [TxCommit ''Assign Grid Square and Number''])
         @ [Alert (if card (fst ` set (all_writes ints sp sel (document w))) = length sel
                   then ''Selected elements were successfully numbered.''
                   else ''Not all elements were numbered.'')]\<rparr>)"
proof -
  let ?w0 = "log_event (TxStart ''Assign Grid Square and Number'') w"
  have d0: "document ?w0 = document w" by (simp add: log_event_def)
  have valid: "\<forall>eid\<in>set sel. elements (document ?w0) eid \<noteq> None"
    using assms by (simp add: d0)
  show ?thesis
    unfolding numbering_transaction_def Let_def assign_parameters_eq [OF valid] d0
    by (simp add: log_event_def alert_def)
qed

section \<open>The grid intersections\<close>

lemma separate_grids_eq:
  "separate_grids grids (vs, hs) =
     (vs @ filter (\<lambda>g. \<not> is_horizontal g) grids, hs @ filter is_horizontal grids)"
  by (induction grids arbitrary: vs hs) simp_all

lemma intersections_with_eq:
  "intersections_with I v hs acc =
     acc @ concat (map (\<lambda>h. if reports_overlap I v h then [(first_point I v h, v, h)] else []) hs)"
proof (induction hs arbitrary: acc)
  case Nil
  show ?case by simp
next
  case (Cons h hs)
  obtain res results where r: "I (Curve v) (Curve h) = (res, results)"
    by (cases "I (Curve v) (Curve h)") auto
  show ?case
    by (simp add: r Cons.IH reports_overlap_def first_point_def Let_def)
qed

lemma get_grid_intersections_loop_eq:
  "get_grid_intersections_loop I vs hs acc =
     acc @ concat (map (\<lambda>v. concat (map (\<lambda>h. if reports_overlap I v h
                                               then [(first_point I v h, v, h)] else []) hs)) vs)"
  by (induction vs arbitrary: acc) (simp_all add: intersections_with_eq)

lemma get_grid_intersections_spec:
  "get_grid_intersections I (filter (\<lambda>g. \<not> is_horizontal g) grids) (filter is_horizontal grids)
     = spec_grid_intersections I grids"
  by (simp add: get_grid_intersections_def get_grid_intersections_loop_eq spec_grid_intersections_def)

lemma set_spec_grid_intersections:
  "((ip, v, h) \<in> set (spec_grid_intersections I grids)) =
     (v \<in> set grids \<and> \<not> is_horizontal v \<and> h \<in> set grids \<and> is_horizontal h
      \<and> reports_overlap I v h \<and> ip = first_point I v h)"
  unfolding spec_grid_intersections_def by auto

lemma get_grid_intersections_cong:
  assumes "\<forall>v\<in>set vs. \<forall>h\<in>set hs. I' (Curve v) (Curve h) = I (Curve v) (Curve h)"
  shows "get_grid_intersections I' vs hs = get_grid_intersections I vs hs"
proof -
  let ?F' = "\<lambda>v. concat (map (\<lambda>h. if reports_overlap I' v h
                                   then [(first_point I' v h, v, h)] else []) hs)"
  let ?F = "\<lambda>v. concat (map (\<lambda>h. if reports_overlap I v h
                                  then [(first_point I v h, v, h)] else []) hs)"
  have pair: "\<And>v h. v \<in> set vs \<Longrightarrow> h \<in> set hs \<Longrightarrow>
      (if reports_overlap I' v h then [(first_point I' v h, v, h)] else [])
      = (if reports_overlap I v h then [(first_point I v h, v, h)] else [])"
    using assms by (simp add: reports_overlap_def first_point_def)
  have row: "\<And>v. v \<in> set vs \<Longrightarrow> ?F' v = ?F v"
  proof -
    fix v assume v: "v \<in> set vs"
    have "map (\<lambda>h. if reports_overlap I' v h then [(first_point I' v h, v, h)] else []) hs
        = map (\<lambda>h. if reports_overlap I v h then [(first_point I v h, v, h)] else []) hs"
      by (rule map_cong [OF refl]) (rule pair [OF v])
    then show "?F' v = ?F v" by (rule arg_cong)
  qed
  have "map ?F' vs = map ?F vs" by (rule map_cong [OF refl]) (rule row)
  then have "concat (map ?F' vs) = concat (map ?F vs)" by (rule arg_cong)
  then show ?thesis
    by (simp only: get_grid_intersections_def get_grid_intersections_loop_eq append_Nil)
qed

section \<open>Parameter setup\<close>


lemma find_definition_None:
  "(find_definition n bs = None) = (\<forall>x\<in>set bs. definition_name (fst x) \<noteq> n)"
proof (induction bs)
  case Nil
  show ?case by simp
next
  case (Cons a bs)
  obtain d b where a: "a = (d, b)" by (cases a) auto
  show ?case
  proof (cases "definition_name d = n")
    case True
    then show ?thesis by (simp add: a)
  next
    case False
    show ?thesis
    proof (cases "find_definition n bs")
      case None
      then show ?thesis using False Cons.IH by (simp add: a)
    next
      case (Some found)
      obtain i d1 b1 where "found = (i, d1, b1)" by (cases found) auto
      then show ?thesis using False Cons.IH Some by (simp add: a)
    qed
  qed
qed

lemma find_definition_Some:
  assumes "find_definition n bs = Some (i, d, b)"
  shows "i < length bs \<and> bs ! i = (d, b) \<and> definition_name d = n"
  using assms
proof (induction bs arbitrary: i)
  case Nil
  then show ?case by simp
next
  case (Cons a bs)
  obtain d0 b0 where a: "a = (d0, b0)" by (cases a) auto
  show ?case
  proof (cases "definition_name d0 = n")
    case True
    then show ?thesis using Cons.prems by (simp add: a)
  next
    case False
    then obtain j where j: "find_definition n bs = Some (j, d, b)" "i = Suc j"
      using Cons.prems by (auto simp add: a split: option.splits)
    from Cons.IH [OF j(1)] show ?thesis by (simp add: j(2))
  qed
qed

lemma find_definition_update:
  assumes "find_definition n bs = Some (i, d, b)"
  shows "find_definition n (bs[i := (d, b')]) = Some (i, d, b')"
  using assms
proof (induction bs arbitrary: i)
  case Nil
  then show ?case by simp
next
  case (Cons a bs)
  obtain d0 b0 where a: "a = (d0, b0)" by (cases a) auto
  show ?case
  proof (cases "definition_name d0 = n")
    case True
    then show ?thesis using Cons.prems by (simp add: a)
  next
    case False
    then obtain j where j: "find_definition n bs = Some (j, d, b)" "i = Suc j"
      using Cons.prems by (auto simp add: a split: option.splits)
    from Cons.IH [OF j(1)] show ?thesis using False by (simp add: j(2) a)
  qed
qed

lemma find_definition_append:
  assumes "find_definition n bs = None" and "definition_name d = n"
  shows "find_definition n (bs @ [(d, b)]) = Some (length bs, d, b)"
  using assms(1)
proof (induction bs)
  case Nil
  show ?case by (simp add: assms(2))
next
  case (Cons a bs)
  obtain d0 b0 where a: "a = (d0, b0)" by (cases a) auto
  have "definition_name d0 \<noteq> n" "find_definition n bs = None"
    using Cons.prems by (auto simp add: a split: if_splits option.splits)
  then show ?case using Cons.IH by (simp add: a)
qed

lemma missing_empty:
  "card {cat \<in> {c \<in> set cs. AllowsBoundParameters c}. cat \<notin> existing} = 0
     \<Longrightarrow> {c \<in> set cs. AllowsBoundParameters c} \<subseteq> existing"
proof -
  assume c: "card {cat \<in> {c \<in> set cs. AllowsBoundParameters c}. cat \<notin> existing} = 0"
  have "finite {cat \<in> {c \<in> set cs. AllowsBoundParameters c}. cat \<notin> existing}" by simp
  with c have "{cat \<in> {c \<in> set cs. AllowsBoundParameters c}. cat \<notin> existing} = {}" by simp
  then show ?thesis by blast
qed

lemma new_categories:
  "existing \<union> {cat \<in> set cs. AllowsBoundParameters cat \<and> cat \<notin> existing
                             \<and> AllowsBoundParameters cat}
     = existing \<union> {c \<in> set cs. AllowsBoundParameters c}"
  by blast

lemma update_binding_document:
  "document (update_binding n {c \<in> set cs. AllowsBoundParameters c} (i, d, b) w) =
     (document w)\<lparr>ParameterBindings :=
        (if {c \<in> set cs. AllowsBoundParameters c} \<subseteq> Categories b
         then ParameterBindings (document w)
         else (ParameterBindings (document w))
                [i := (d, b\<lparr>Categories := Categories b \<union> {c \<in> set cs. AllowsBoundParameters c}\<rparr>)])\<rparr>"
proof (cases "{c \<in> set cs. AllowsBoundParameters c} \<subseteq> Categories b")
  case True
  then have "{cat \<in> set cs. AllowsBoundParameters cat \<and> cat \<notin> Categories b} = {}" by blast
  then have z: "card {cat \<in> set cs. AllowsBoundParameters cat \<and> cat \<notin> Categories b} = 0"
    by simp
  have "update_binding n {c \<in> set cs. AllowsBoundParameters c} (i, d, b) w = w"
    by (simp add: update_binding_def Let_def z)
  then show ?thesis using True by simp
next
  case False
  then have "{cat \<in> set cs. AllowsBoundParameters cat \<and> cat \<notin> Categories b} \<noteq> {}" by blast
  then have z: "0 < card {cat \<in> set cs. AllowsBoundParameters cat \<and> cat \<notin> Categories b}"
    by (simp add: card_gt_0_iff)
  have "document (update_binding n {c \<in> set cs. AllowsBoundParameters c} (i, d, b) w) =
     (document w)\<lparr>ParameterBindings := (ParameterBindings (document w))
        [i := (d, b\<lparr>Categories := Categories b \<union> {c \<in> set cs. AllowsBoundParameters c}\<rparr>)]\<rparr>"
    by (simp add: update_binding_def Let_def log_event_def z new_categories)
  then show ?thesis using False by simp
qed


lemma update_binding_application:
  "application (update_binding n cat_set found w) = application w"
  by (cases found) (simp add: update_binding_def Let_def log_event_def)


lemma bound_definition_name: "definition_name (bound_definition n groups) = n"
proof (cases "find (\<lambda>g. group_name g = ''Grid Tools'') groups")
  case None
  then show ?thesis by (simp add: bound_definition_def)
next
  case (Some g)
  show ?thesis
  proof (cases "find (\<lambda>d. definition_name d = n) (Definitions g)")
    case None
    then show ?thesis using Some by (simp add: bound_definition_def)
  next
    case (Some d)
    then have "definition_name d = n" by (auto simp add: find_Some_iff)
    then show ?thesis using Some \<open>find (\<lambda>g. group_name g = ''Grid Tools'') groups = Some g\<close>
      by (simp add: bound_definition_def)
  qed
qed

lemma bound_definition_type:
  "definition_type (bound_definition n groups) = Text
   \<or> (\<exists>g\<in>set groups. group_name g = ''Grid Tools'' \<and> bound_definition n groups \<in> set (Definitions g))"
proof (cases "find (\<lambda>g. group_name g = ''Grid Tools'') groups")
  case None
  then show ?thesis by (simp add: bound_definition_def)
next
  case (Some g)
  then have g: "g \<in> set groups" "group_name g = ''Grid Tools''"
    by (auto simp add: find_Some_iff)
  show ?thesis
  proof (cases "find (\<lambda>d. definition_name d = n) (Definitions g)")
    case None
    then show ?thesis using Some by (simp add: bound_definition_def)
  next
    case (Some d)
    then have "d \<in> set (Definitions g)" by (auto simp add: find_Some_iff)
    moreover have "bound_definition n groups = d"
      using Some \<open>find (\<lambda>g. group_name g = ''Grid Tools'') groups = Some g\<close>
      by (simp add: bound_definition_def)
    ultimately show ?thesis using g by blast
  qed
qed

lemma create_parameter_None:
  assumes "shared_groups (application w) = None"
  shows "\<exists>msg w'. create_parameter n cat_set w = (Exited, w')
       \<and> document w' = document w
       \<and> journal w' = journal w @ [TxStart (''Add Project Parameter: '' @ n),
                                  TxRollBack (''Add Project Parameter: '' @ n), Alert msg]"
  using assms
  by (simp add: create_parameter_def shared_groups_def Let_def log_event_def alert_def
      split: option.splits)

lemma create_parameter_Some:
  assumes "shared_groups (application w) = Some groups"
  shows "\<exists>w'. create_parameter n cat_set w = (Returned, w')
       \<and> document w' = (document w)\<lparr>ParameterBindings := ParameterBindings (document w)
            @ [(bound_definition n groups, \<lparr>binding_kind = InstanceBinding, Categories = cat_set\<rparr>)]\<rparr>
       \<and> journal w' = journal w @ [TxStart (''Add Project Parameter: '' @ n),
                                  TxCommit (''Add Project Parameter: '' @ n)]"
proof (cases "SharedParameterFile (application w)")
  case None
  then have temp: "TempSharedParameterFile (application w) = Some groups"
    using assms by (simp add: shared_groups_def)
  show ?thesis
  proof (cases "find (\<lambda>g. group_name g = ''Grid Tools'') groups")
    case None
    then show ?thesis using \<open>SharedParameterFile (application w) = None\<close> temp
      by (simp add: create_parameter_def Let_def log_event_def bound_definition_def)
  next
    case (Some g)
    then show ?thesis using \<open>SharedParameterFile (application w) = None\<close> temp
      by (cases "find (\<lambda>d. definition_name d = n) (Definitions g)")
         (simp_all add: create_parameter_def Let_def log_event_def bound_definition_def)
  qed
next
  case (Some f)
  then have f: "f = groups" using assms by (simp add: shared_groups_def)
  show ?thesis
  proof (cases "find (\<lambda>g. group_name g = ''Grid Tools'') groups")
    case None
    then show ?thesis using Some f
      by (simp add: create_parameter_def Let_def log_event_def bound_definition_def)
  next
    case (Some g)
    then show ?thesis using \<open>SharedParameterFile (application w) = Some f\<close> f
      by (cases "find (\<lambda>d. definition_name d = n) (Definitions g)")
         (simp_all add: create_parameter_def Let_def log_event_def bound_definition_def)
  qed
qed


lemma update_binding_noop:
  assumes "{c \<in> set cs. AllowsBoundParameters c} \<subseteq> Categories b"
  shows "update_binding n {c \<in> set cs. AllowsBoundParameters c} (i, d, b) w = w"
proof -
  from assms have "{cat \<in> set cs. AllowsBoundParameters cat \<and> cat \<notin> Categories b} = {}" by blast
  then have z: "card {cat \<in> set cs. AllowsBoundParameters cat \<and> cat \<notin> Categories b} = 0"
    by simp
  show ?thesis by (simp add: update_binding_def Let_def z)
qed

lemma ensure_existing:
  assumes "find_definition n (ParameterBindings (document w)) = Some (i, d, b)"
  shows "ensure_text_parameter n cs w =
           (Returned, update_binding n {c \<in> set cs. AllowsBoundParameters c} (i, d, b) w)"
  using assms by (simp add: ensure_text_parameter_def Let_def)

lemma ensure_missing:
  assumes "find_definition n (ParameterBindings (document w)) = None"
  shows "ensure_text_parameter n cs w =
           create_parameter n {c \<in> set cs. AllowsBoundParameters c} w"
  using assms by (simp add: ensure_text_parameter_def Let_def)

lemma bindings_update_binding:
  assumes "find_definition n (ParameterBindings (document w)) = Some (i, d, b)"
  shows "ParameterBindings (document (update_binding n {c \<in> set cs. AllowsBoundParameters c} (i, d, b) w))
     = (ParameterBindings (document w))
         [i := (d, b\<lparr>Categories := Categories b \<union> {c \<in> set cs. AllowsBoundParameters c}\<rparr>)]"
proof (cases "{c \<in> set cs. AllowsBoundParameters c} \<subseteq> Categories b")
  case True
  then have "Categories b \<union> {c \<in> set cs. AllowsBoundParameters c} = Categories b" by blast
  moreover have "ParameterBindings (document w) ! i = (d, b)"
    using find_definition_Some [OF assms] by simp
  ultimately show ?thesis using True
    by (simp add: update_binding_document) (metis list_update_id)
next
  case False
  then show ?thesis by (simp add: update_binding_document)
qed



section \<open>The stages of a run\<close>
















section \<open>The example inputs, evaluated\<close>

lemmas example_defs = example_world_def example_document_def example_elements_def element_at_def
  text_parameter_def walls_def point_def example_intersections_def grid_A_def grid_B_def grid_1_def
  line_along_def example_application_def

lemma str_1: "str (Suc 0) = ''1''"
  by (simp add: str.simps digit_char_def)

lemma ex_all89: "all_writes example_intersections (point 1 0 0) [8, 9] example_document =
   [(8, ''Grid Square'', ''A-1''), (8, ''Number'', ''1'')]"
  by (simp add: all_writes_def grid_square_writes_def grid_square_for_def located_def
      number_writes_def location_of_def writable_def LookupParameter_def DistanceTo_def
      example_defs str_1)

lemma ex_all5: "all_writes example_intersections (point 2 0 0) [5] example_document =
   [(5, ''Grid Square'', ''A-1'')]"
  by (simp add: all_writes_def grid_square_writes_def grid_square_for_def located_def
      number_writes_def location_of_def writable_def LookupParameter_def DistanceTo_def
      example_defs)

lemma ex_only_grid_square:
  "\<exists>w'. numbering_transaction example_intersections (point 2 0 0) [5] example_world = (Returned, w')
        \<and> last (journal w') = Alert ''Selected elements were successfully numbered.''
        \<and> \<not> writable (document example_world) 5 ''Number''
        \<and> (\<forall>v. ParamSet 5 ''Number'' v \<notin> set (journal w'))"
proof -
  have valid: "\<forall>e\<in>set [5]. elements (document example_world) e \<noteq> None"
    by (simp add: example_world_def example_document_def example_elements_def)
  have doc: "document example_world = example_document" by (simp add: example_world_def)
  have nw: "\<not> writable (document example_world) 5 ''Number''"
    by (simp add: writable_def LookupParameter_def example_defs)
  show ?thesis
    unfolding numbering_transaction_eq [OF valid] doc ex_all5
    using nw by (simp add: write_events_def example_world_def)
qed

lemma ex_spec_grid_intersections:
  "spec_grid_intersections example_Intersect [grid_A, grid_1, grid_B] = example_intersections"
  by (simp add: spec_grid_intersections_def is_horizontal_def reports_overlap_def first_point_def
      example_Intersect_def example_intersections_def grid_A_def grid_B_def grid_1_def
      line_along_def point_def)

lemma ex_ensure_returns:
  "fst (ensure_text_parameter ''Grid Square'' [walls] example_world) = Returned"
proof -
  have none: "find_definition ''Grid Square'' (ParameterBindings (document example_world)) = None"
    by (simp add: example_world_def example_document_def)
  have groups: "shared_groups (application example_world) = Some []"
    by (simp add: shared_groups_def example_world_def example_application_def)
  from create_parameter_Some [OF groups, of "''Grid Square''" "{c \<in> set [walls]. AllowsBoundParameters c}"]
  obtain w' where "create_parameter ''Grid Square'' {c \<in> set [walls]. AllowsBoundParameters c}
      example_world = (Returned, w')" by blast
  then show ?thesis unfolding ensure_missing [OF none, of "[walls]"] by simp
qed




lemma str_2: "str (Suc (Suc 0)) = ''2''"
  by (simp add: str.simps digit_char_def)

lemma ex_all78: "all_writes example_intersections (point 1 0 0) [7, 8] example_document =
   [(7, ''Grid Square'', ''B-1''), (8, ''Grid Square'', ''A-1''),
    (8, ''Number'', ''1''), (7, ''Number'', ''2'')]"
  by (simp add: all_writes_def grid_square_writes_def grid_square_for_def located_def
      number_writes_def location_of_def writable_def LookupParameter_def DistanceTo_def
      example_defs str_1 str_2)


section \<open>What the parameter setup does\<close>

text \<open>
  After a normal return of \<open>ensure_text_parameter\<close>, the first definition of that name in
  the binding map has a binding whose categories include every category of the list that
  allows bound parameters. If a definition of that name was bound before, its binding has
  the same kind and the old categories together with those of the list, and every other
  entry of the map is as it was; otherwise one instance binding for a definition of that
  name is appended. No element changes, and a second call changes nothing. The type of the
  definition is looked at nowhere: it is text only if the call made the definition.
\<close>

lemma ensure_text_parameter_binds:
  assumes "ensure_text_parameter n cs w = (Returned, w')"
  shows "(\<exists>i d b. find_definition n (ParameterBindings (document w')) = Some (i, d, b)
            \<and> {c \<in> set cs. AllowsBoundParameters c} \<subseteq> Categories b
            \<and> (definition_type d = Text
               \<or> d \<in> fst ` set (ParameterBindings (document w))
               \<or> (\<exists>groups g. shared_groups (application w) = Some groups \<and> g \<in> set groups
                     \<and> group_name g = ''Grid Tools'' \<and> d \<in> set (Definitions g))))
       \<and> (\<forall>i d b. find_definition n (ParameterBindings (document w)) = Some (i, d, b) \<longrightarrow>
             ParameterBindings (document w') = (ParameterBindings (document w))
               [i := (d, b\<lparr>Categories := Categories b \<union> {c \<in> set cs. AllowsBoundParameters c}\<rparr>)])
       \<and> (find_definition n (ParameterBindings (document w)) = None \<longrightarrow>
             (\<exists>d. definition_name d = n
                \<and> ParameterBindings (document w') = ParameterBindings (document w)
                     @ [(d, \<lparr>binding_kind = InstanceBinding,
                             Categories = {c \<in> set cs. AllowsBoundParameters c}\<rparr>)]))
       \<and> elements (document w') = elements (document w)
       \<and> ensure_text_parameter n cs w' = (Returned, w')"
proof (cases "find_definition n (ParameterBindings (document w))")
  case None
  let ?cats = "{c \<in> set cs. AllowsBoundParameters c}"
  let ?binding = "\<lparr>binding_kind = InstanceBinding, Categories = ?cats\<rparr>"
  have run: "create_parameter n ?cats w = (Returned, w')"
    using assms ensure_missing [OF None] by simp
  obtain groups where groups: "shared_groups (application w) = Some groups"
    using run create_parameter_None [of w n ?cats]
    by (cases "shared_groups (application w)") auto
  let ?d = "bound_definition n groups"
  from create_parameter_Some [OF groups, of n ?cats] run
  have doc': "document w' = (document w)\<lparr>ParameterBindings :=
      ParameterBindings (document w) @ [(?d, ?binding)]\<rparr>"
    by auto
  then have bs': "ParameterBindings (document w') = ParameterBindings (document w) @ [(?d, ?binding)]"
    by simp
  have found': "find_definition n (ParameterBindings (document w'))
      = Some (length (ParameterBindings (document w)), ?d, ?binding)"
    unfolding bs' by (rule find_definition_append [OF None bound_definition_name])
  have dtype: "definition_type ?d = Text
      \<or> (\<exists>groups g. shared_groups (application w) = Some groups \<and> g \<in> set groups
            \<and> group_name g = ''Grid Tools'' \<and> ?d \<in> set (Definitions g))"
    using bound_definition_type [of n groups] groups by blast
  have again: "ensure_text_parameter n cs w' = (Returned, w')"
    unfolding ensure_existing [OF found'] by (simp add: update_binding_noop)
  have first: "\<exists>i d b. find_definition n (ParameterBindings (document w')) = Some (i, d, b)
            \<and> ?cats \<subseteq> Categories b
            \<and> (definition_type d = Text
               \<or> d \<in> fst ` set (ParameterBindings (document w))
               \<or> (\<exists>groups g. shared_groups (application w) = Some groups \<and> g \<in> set groups
                     \<and> group_name g = ''Grid Tools'' \<and> d \<in> set (Definitions g)))"
    using found' dtype by auto
  have third: "\<exists>d. definition_name d = n
      \<and> ParameterBindings (document w') = ParameterBindings (document w) @ [(d, ?binding)]"
    using bs' bound_definition_name by blast
  show ?thesis using first third again None doc' by simp
next
  case (Some found)
  obtain i d b where f: "found = (i, d, b)" by (cases found) auto
  let ?cats = "{c \<in> set cs. AllowsBoundParameters c}"
  let ?b' = "b\<lparr>Categories := Categories b \<union> ?cats\<rparr>"
  have fd: "find_definition n (ParameterBindings (document w)) = Some (i, d, b)"
    using Some f by simp
  have w': "w' = update_binding n ?cats (i, d, b) w"
    using assms ensure_existing [OF fd, of cs] by simp
  have bs': "ParameterBindings (document w') = (ParameterBindings (document w))[i := (d, ?b')]"
    unfolding w' by (rule bindings_update_binding [OF fd])
  have found': "find_definition n (ParameterBindings (document w')) = Some (i, d, ?b')"
    unfolding bs' by (rule find_definition_update [OF fd])
  have sub: "?cats \<subseteq> Categories ?b'" by simp
  have again: "ensure_text_parameter n cs w' = (Returned, w')"
    unfolding ensure_existing [OF found'] using update_binding_noop [OF sub] by simp
  have "(d, b) \<in> set (ParameterBindings (document w))"
    using find_definition_Some [OF fd] by (metis nth_mem)
  then have old: "d \<in> fst ` set (ParameterBindings (document w))" by force
  have first: "\<exists>i d b. find_definition n (ParameterBindings (document w')) = Some (i, d, b)
            \<and> ?cats \<subseteq> Categories b
            \<and> (definition_type d = Text
               \<or> d \<in> fst ` set (ParameterBindings (document w))
               \<or> (\<exists>groups g. shared_groups (application w) = Some groups \<and> g \<in> set groups
                     \<and> group_name g = ''Grid Tools'' \<and> d \<in> set (Definitions g)))"
    using found' sub old by blast
  have els: "elements (document w') = elements (document w)"
    unfolding w' by (simp add: update_binding_document)
  show ?thesis using first bs' fd again els by simp
qed

lemma ensure_text_parameter_binds_example:
  "ensure_text_parameter ''Grid Square'' [walls] example_world
     = (Returned, snd (ensure_text_parameter ''Grid Square'' [walls] example_world))
   \<and> (\<exists>i d b. find_definition ''Grid Square''
                 (ParameterBindings (document (snd (ensure_text_parameter ''Grid Square'' [walls]
                    example_world)))) = Some (i, d, b)
            \<and> {c \<in> set [walls]. AllowsBoundParameters c} \<subseteq> Categories b
            \<and> definition_name d = ''Grid Square'')
   \<and> elements (document (snd (ensure_text_parameter ''Grid Square'' [walls] example_world)))
       = elements (document example_world)
   \<and> ensure_text_parameter ''Grid Square'' [walls]
        (snd (ensure_text_parameter ''Grid Square'' [walls] example_world))
       = (Returned, snd (ensure_text_parameter ''Grid Square'' [walls] example_world))"
proof -
  let ?w' = "snd (ensure_text_parameter ''Grid Square'' [walls] example_world)"
  have h: "ensure_text_parameter ''Grid Square'' [walls] example_world = (Returned, ?w')"
    using ex_ensure_returns
    by (cases "ensure_text_parameter ''Grid Square'' [walls] example_world") simp
  from ensure_text_parameter_binds [OF h] obtain i d b where
    f: "find_definition ''Grid Square'' (ParameterBindings (document ?w')) = Some (i, d, b)"
       "{c \<in> set [walls]. AllowsBoundParameters c} \<subseteq> Categories b"
    and rest: "elements (document ?w') = elements (document example_world)"
       "ensure_text_parameter ''Grid Square'' [walls] ?w' = (Returned, ?w')"
    by blast
  have "definition_name d = ''Grid Square''" using find_definition_Some [OF f(1)] by simp
  with f have ex: "\<exists>i d b. find_definition ''Grid Square'' (ParameterBindings (document ?w'))
        = Some (i, d, b)
      \<and> {c \<in> set [walls]. AllowsBoundParameters c} \<subseteq> Categories b
      \<and> definition_name d = ''Grid Square''" by blast
  show ?thesis by (intro conjI) (rule h, rule ex, rule rest(1), rule rest(2))
qed

section \<open>The number of steps\<close>

lemma T_closest_scan_length: "T_closest_scan pt ints s = length ints"
proof (induction ints arbitrary: s)
  case Nil
  show ?case by (cases s) simp
next
  case (Cons a ints)
  obtain ip v h where a: "a = (ip, v, h)" by (cases a) auto
  obtain m c where s: "s = (m, c)" by (cases s) auto
  show ?case unfolding a s by (simp add: Cons.IH Let_def)
qed

lemma T_grid_square_body_le: "T_grid_square_body ints elem \<le> length ints"
  by (simp add: T_grid_square_body_def T_closest_scan_length split: option.splits)

lemma T_grid_square_loop_le: "T_grid_square_loop ints eids s \<le> length eids * length ints"
proof (induction eids arbitrary: s)
  case Nil
  show ?case by simp
next
  case (Cons eid eids)
  show ?case
  proof (cases "GetElement (document (fst s)) eid")
    case None
    then show ?thesis by simp
  next
    case (Some elem)
    have "T_grid_square_loop ints (eid # eids) s =
        T_grid_square_body ints elem + T_grid_square_loop ints eids (grid_square_body ints eid elem s)"
      using Some by simp
    also have "\<dots> \<le> length ints + length eids * length ints"
      using T_grid_square_body_le [of ints elem] Cons.IH [of "grid_square_body ints eid elem s"]
      by simp
    finally show ?thesis by simp
  qed
qed

lemma T_elements_with_distance_le: "T_elements_with_distance doc sp eids \<le> length eids"
proof (induction eids)
  case Nil
  show ?case by simp
next
  case (Cons eid eids)
  then show ?case by (simp split: option.splits)
qed

lemma T_number_loop_length: "T_number_loop xs = length xs"
  by (induction xs) simp_all

lemma length_located_le: "length (located doc sp eids) \<le> length eids"
proof -
  have "length (map fst (located doc sp eids)) \<le> length eids"
    unfolding map_fst_located by (rule length_filter_le)
  then show ?thesis by simp
qed

lemma T_intersections_with_length: "T_intersections_with I v hs = length hs"
  by (induction hs) simp_all

lemma T_get_grid_intersections_product:
  "T_get_grid_intersections I vs hs = length vs * length hs"
  by (induction vs) (simp_all add: T_intersections_with_length)

section \<open>The claims\<close>

text \<open>
  C1. Given a non-empty list of grid intersections, every selected element whose location
  resolves to a point and whose "Grid Square" parameter exists and is not read-only has that
  parameter set to the label "V-H" of the entry \<open>(ip, V, H)\<close> at minimum Euclidean distance
  from the element's location; among entries at the same distance the first one wins: every
  entry before the chosen one is strictly farther away. The selected ids are ids of elements
  of the document.
\<close>

theorem grid_square_is_nearest_intersection:
  assumes "\<forall>e\<in>set sel. elements (document w) e \<noteq> None"
    and "eid \<in> set sel"
    and "location_of (document w) eid = Some pt"
    and "ints \<noteq> []"
    and "writable (document w) eid ''Grid Square''"
  shows "\<exists>w' modified pre ip V H post.
           assign_parameters ints start_point sel w = Inr (w', modified)
         \<and> ints = pre @ (ip, V, H) # post
         \<and> (\<forall>x\<in>set pre. DistanceTo pt ip < DistanceTo pt (fst x))
         \<and> (\<forall>x\<in>set post. DistanceTo pt ip \<le> DistanceTo pt (fst x))
         \<and> value_of (document w') eid ''Grid Square'' = Some (Name V @ ''-'' @ Name H)
         \<and> ParamSet eid ''Grid Square'' (Name V @ ''-'' @ Name H) \<in> set (journal w')
         \<and> eid \<in> modified"
proof -
  let ?doc = "document w"
  let ?ws = "all_writes ints start_point sel ?doc"
  from grid_square_for_first_min [OF assms(3,4,5)] obtain ip V H where
    fm: "first_min pt ints (ip, V, H)"
    and label: "grid_square_for ints ?doc eid = Some (Name V @ ''-'' @ Name H)"
    by blast
  let ?label = "Name V @ ''-'' @ Name H"
  from fm obtain pre post where split: "ints = pre @ (ip, V, H) # post"
    "\<forall>x\<in>set pre. DistanceTo pt ip < DistanceTo pt (fst x)"
    "\<forall>x\<in>set post. DistanceTo pt ip \<le> DistanceTo pt (fst x)"
    unfolding first_min_def by auto
  have mem: "(eid, ''Grid Square'', ?label) \<in> set ?ws"
    using assms(2) label by (simp add: all_writes_def set_grid_square_writes)
  have only: "\<forall>v. (eid, ''Grid Square'', v) \<in> set ?ws \<longrightarrow> v = ?label"
  proof (intro allI impI)
    fix v assume "(eid, ''Grid Square'', v) \<in> set ?ws"
    then have "(eid, ''Grid Square'', v) \<in> set (grid_square_writes ints ?doc sel)"
      unfolding all_writes_def using set_number_writes [of eid "''Grid Square''" v] by auto
    then show "v = ?label" using label by (simp add: set_grid_square_writes)
  qed
  have val: "value_of (apply_writes ?ws ?doc) eid ''Grid Square'' = Some ?label"
    by (rule value_of_apply_writes_const [OF only])
       (use mem writable_value_of [OF assms(5)] in simp)
  have ev: "ParamSet eid ''Grid Square'' ?label \<in> set (write_events ?ws)"
    using mem by (force simp add: write_events_def)
  have inm: "eid \<in> fst ` set ?ws" using mem by force
  have "assign_parameters ints start_point sel w =
          Inr (w\<lparr>document := apply_writes ?ws ?doc, journal := journal w @ write_events ?ws\<rparr>,
               fst ` set ?ws)
        \<and> ints = pre @ (ip, V, H) # post
        \<and> (\<forall>x\<in>set pre. DistanceTo pt ip < DistanceTo pt (fst x))
        \<and> (\<forall>x\<in>set post. DistanceTo pt ip \<le> DistanceTo pt (fst x))
        \<and> value_of (document (w\<lparr>document := apply_writes ?ws ?doc,
                                    journal := journal w @ write_events ?ws\<rparr>)) eid ''Grid Square''
            = Some ?label
        \<and> ParamSet eid ''Grid Square'' ?label
            \<in> set (journal (w\<lparr>document := apply_writes ?ws ?doc,
                                  journal := journal w @ write_events ?ws\<rparr>))
        \<and> eid \<in> fst ` set ?ws"
    using assign_parameters_eq [OF assms(1)] split val ev inm by simp
  then show ?thesis by blast
qed

theorem grid_square_is_nearest_intersection_witness:
  "elements (document example_world) 7 \<noteq> None
   \<and> elements (document example_world) 8 \<noteq> None
   \<and> 7 \<in> set [7, 8 :: ElementId]
   \<and> location_of (document example_world) 7 = Some (point 8 0 0)
   \<and> example_intersections \<noteq> []
   \<and> writable (document example_world) 7 ''Grid Square''
   \<and> (\<exists>w' modified pre ip V H post.
           assign_parameters example_intersections (point 1 0 0) [7, 8] example_world
             = Inr (w', modified)
         \<and> example_intersections = pre @ (ip, V, H) # post
         \<and> (\<forall>x\<in>set pre. DistanceTo (point 8 0 0) ip < DistanceTo (point 8 0 0) (fst x))
         \<and> (\<forall>x\<in>set post. DistanceTo (point 8 0 0) ip \<le> DistanceTo (point 8 0 0) (fst x))
         \<and> value_of (document w') 7 ''Grid Square'' = Some (Name V @ ''-'' @ Name H)
         \<and> ParamSet 7 ''Grid Square'' (Name V @ ''-'' @ Name H) \<in> set (journal w')
         \<and> 7 \<in> modified)"
proof -
  have h1: "\<forall>e\<in>set [7, 8]. elements (document example_world) e \<noteq> None"
    by (simp add: example_world_def example_document_def example_elements_def)
  have h2: "7 \<in> set [7, 8 :: ElementId]" by simp
  have h3: "location_of (document example_world) 7 = Some (point 8 0 0)"
    by (simp add: example_world_def example_document_def example_elements_def element_at_def
        location_of_def)
  have h4: "example_intersections \<noteq> []" by (simp add: example_intersections_def)
  have h5: "writable (document example_world) 7 ''Grid Square''"
    by (simp add: example_world_def example_document_def example_elements_def element_at_def
        text_parameter_def writable_def LookupParameter_def)
  from grid_square_is_nearest_intersection [OF h1 h2 h3 h4 h5, of "point 1 0 0"]
  show ?thesis using h1 h2 h3 h4 h5 by simp
qed

text \<open>
  C2, as amended. The second loop numbers the selected elements that have a location and a
  writable "Number" parameter, and only those: listed by ascending distance from the start
  point, the i-th of them gets the text of the number i, counting from 1; an element
  strictly nearer to the start gets the smaller number; different numbers have different
  texts; the "Number" parameter of every other element is left as it was. The selected ids
  are distinct ids of elements of the document.
\<close>

theorem numbers_follow_distance:
  assumes "\<forall>e\<in>set sel. elements (document w) e \<noteq> None" and "distinct sel"
  shows "\<exists>w' modified R.
           assign_parameters ints start_point sel w = Inr (w', modified)
         \<and> set R = {(eid, DistanceTo pt start_point) | eid pt.
                      eid \<in> set sel \<and> location_of (document w) eid = Some pt
                      \<and> writable (document w) eid ''Number''}
         \<and> distinct (map fst R)
         \<and> sorted (map snd R)
         \<and> (\<forall>i<length R. value_of (document w') (fst (R ! i)) ''Number'' = Some (str (Suc i)))
         \<and> (\<forall>i<length R. \<forall>j<length R. snd (R ! i) < snd (R ! j) \<longrightarrow> i < j)
         \<and> (\<forall>i j. str (Suc i) = str (Suc j) \<longrightarrow> i = j)
         \<and> (\<forall>eid. eid \<notin> fst ` set R \<longrightarrow>
               value_of (document w') eid ''Number'' = value_of (document w) eid ''Number'')"
proof -
  let ?doc = "document w"
  let ?ws = "all_writes ints start_point sel ?doc"
  let ?R = "ranked ?doc start_point sel"
  let ?w' = "w\<lparr>document := apply_writes ?ws ?doc, journal := journal w @ write_events ?ws\<rparr>"
  have dist: "distinct (map fst ?R)" by (rule distinct_ranked [OF assms(2)])
  have run: "assign_parameters ints start_point sel w = Inr (?w', fst ` set ?ws)"
    by (rule assign_parameters_eq [OF assms(1)])
  have numbered: "\<forall>i<length ?R. value_of (document ?w') (fst (?R ! i)) ''Number'' = Some (str (Suc i))"
  proof (intro allI impI)
    fix i assume i: "i < length ?R"
    have only: "\<forall>v. (fst (?R ! i), ''Number'', v) \<in> set ?ws \<longrightarrow> v = str (Suc i)"
      using number_write_unique [OF dist i] by blast
    have "value_of (apply_writes ?ws ?doc) (fst (?R ! i)) ''Number'' = Some (str (Suc i))"
      by (rule value_of_apply_writes_const [OF only])
         (use number_write_present [OF i] writable_value_of [OF ranked_writable [OF i]] in simp)
    then show "value_of (document ?w') (fst (?R ! i)) ''Number'' = Some (str (Suc i))" by simp
  qed
  have order: "\<forall>i<length ?R. \<forall>j<length ?R. snd (?R ! i) < snd (?R ! j) \<longrightarrow> i < j"
    using sorted_nearer_first [OF sorted_ranked] by blast
  have inj: "\<forall>i j. str (Suc i) = str (Suc j) \<longrightarrow> i = j"
    using str_inj by blast
  have others: "\<forall>eid. eid \<notin> fst ` set ?R \<longrightarrow>
      value_of (document ?w') eid ''Number'' = value_of ?doc eid ''Number''"
  proof (intro allI impI)
    fix eid assume "eid \<notin> fst ` set ?R"
    then have "\<forall>v. (eid, ''Number'', v) \<notin> set ?ws"
      using number_write_absent by blast
    then show "value_of (document ?w') eid ''Number'' = value_of ?doc eid ''Number''"
      by (simp add: value_of_apply_writes_untouched)
  qed
  from run set_ranked [of ?doc start_point sel] dist sorted_ranked [of ?doc start_point sel]
    numbered order inj others
  show ?thesis by blast
qed

theorem numbers_follow_distance_witness:
  "elements (document example_world) 7 \<noteq> None
   \<and> elements (document example_world) 8 \<noteq> None
   \<and> distinct [7, 8 :: ElementId]
   \<and> (\<exists>w' modified R.
           assign_parameters example_intersections (point 1 0 0) [7, 8] example_world
             = Inr (w', modified)
         \<and> set R = {(eid, DistanceTo pt (point 1 0 0)) | eid pt.
                      eid \<in> set [7, 8] \<and> location_of (document example_world) eid = Some pt
                      \<and> writable (document example_world) eid ''Number''}
         \<and> distinct (map fst R)
         \<and> sorted (map snd R)
         \<and> (\<forall>i<length R. value_of (document w') (fst (R ! i)) ''Number'' = Some (str (Suc i)))
         \<and> (\<forall>i<length R. \<forall>j<length R. snd (R ! i) < snd (R ! j) \<longrightarrow> i < j)
         \<and> (\<forall>i j. str (Suc i) = str (Suc j) \<longrightarrow> i = j)
         \<and> (\<forall>eid. eid \<notin> fst ` set R \<longrightarrow>
               value_of (document w') eid ''Number''
                 = value_of (document example_world) eid ''Number''))"
proof -
  have h1: "\<forall>e\<in>set [7, 8]. elements (document example_world) e \<noteq> None"
    by (simp add: example_world_def example_document_def example_elements_def)
  have h2: "distinct [7, 8 :: ElementId]" by simp
  from numbers_follow_distance [OF h1 h2, of example_intersections "point 1 0 0"]
  show ?thesis using h1 h2 by simp
qed

text \<open>
  C2 as stated fails: with elements 8 and 9 selected, element 9, which has no location, is
  left without a number.
\<close>

theorem unlocated_element_gets_no_number:
  "\<exists>w' modified.
      assign_parameters example_intersections (point 1 0 0) [8, 9] example_world = Inr (w', modified)
    \<and> value_of (document w') 8 ''Number'' = Some ''1''
    \<and> value_of (document w') 9 ''Number'' = Some []
    \<and> 9 \<notin> modified
    \<and> (\<forall>k. value_of (document w') 9 ''Number'' \<noteq> Some (str k))"
proof -
  have valid: "\<forall>e\<in>set [8, 9]. elements (document example_world) e \<noteq> None"
    by (simp add: example_world_def example_document_def example_elements_def)
  have doc: "document example_world = example_document" by (simp add: example_world_def)
  have v8: "value_of (apply_writes [(8, ''Grid Square'', ''A-1''), (8, ''Number'', ''1'')] example_document)
      8 ''Number'' = Some ''1''"
    by (simp add: apply_writes_Cons apply_writes_Nil value_of_Set_doc)
       (simp add: value_of_def LookupParameter_def example_defs)
  have v9: "value_of (apply_writes [(8, ''Grid Square'', ''A-1''), (8, ''Number'', ''1'')] example_document)
      9 ''Number'' = Some []"
    by (simp add: apply_writes_Cons apply_writes_Nil value_of_Set_doc)
       (simp add: value_of_def LookupParameter_def example_defs)
  have "\<forall>k. Some [] \<noteq> Some (str k)"
  proof
    fix k show "Some [] \<noteq> Some (str k)" using str_nonempty [of k] by auto
  qed
  then show ?thesis
    unfolding assign_parameters_eq [OF valid] doc ex_all89
    using v8 v9 by simp
qed




text \<open>
  C4. A grid is horizontal when the absolute X component of its curve direction exceeds the
  absolute Y component, and vertical otherwise. The computed intersections are the list the
  specification describes: going through the vertical grids and, for each, through the
  horizontal grids, a pair contributes the tuple of its first result point and the two
  grids exactly when the host's call reports an overlap with at least one result point.
  The result depends on the host's answers for pairs of a vertical and a horizontal grid
  only: no other pair is tested.
\<close>

theorem grid_intersections_are_the_overlapping_pairs:
  "\<exists>vertical_grids horizontal_grids.
      separate_grids grids ([], []) = (vertical_grids, horizontal_grids)
    \<and> vertical_grids = filter (\<lambda>g. \<not> is_horizontal g) grids
    \<and> horizontal_grids = filter is_horizontal grids
    \<and> get_grid_intersections I vertical_grids horizontal_grids = spec_grid_intersections I grids
    \<and> (\<forall>ip v h. ((ip, v, h) \<in> set (get_grid_intersections I vertical_grids horizontal_grids)) =
          (v \<in> set grids \<and> \<not> is_horizontal v \<and> h \<in> set grids \<and> is_horizontal h
           \<and> reports_overlap I v h \<and> ip = first_point I v h))
    \<and> (\<forall>I'. (\<forall>v\<in>set vertical_grids. \<forall>h\<in>set horizontal_grids.
                 I' (Curve v) (Curve h) = I (Curve v) (Curve h)) \<longrightarrow>
              get_grid_intersections I' vertical_grids horizontal_grids
                = get_grid_intersections I vertical_grids horizontal_grids)"
proof -
  let ?vs = "filter (\<lambda>g. \<not> is_horizontal g) grids"
  let ?hs = "filter is_horizontal grids"
  have sep: "separate_grids grids ([], []) = (?vs, ?hs)" by (simp add: separate_grids_eq)
  have mem: "\<forall>ip v h. ((ip, v, h) \<in> set (get_grid_intersections I ?vs ?hs)) =
          (v \<in> set grids \<and> \<not> is_horizontal v \<and> h \<in> set grids \<and> is_horizontal h
           \<and> reports_overlap I v h \<and> ip = first_point I v h)"
    unfolding get_grid_intersections_spec set_spec_grid_intersections by simp
  have untested: "\<forall>I'. (\<forall>v\<in>set ?vs. \<forall>h\<in>set ?hs. I' (Curve v) (Curve h) = I (Curve v) (Curve h)) \<longrightarrow>
              get_grid_intersections I' ?vs ?hs = get_grid_intersections I ?vs ?hs"
    using get_grid_intersections_cong by blast
  from sep get_grid_intersections_spec [of I grids] mem untested show ?thesis by blast
qed

theorem grid_intersections_are_the_overlapping_pairs_witness:
  "\<exists>vertical_grids horizontal_grids.
      separate_grids [grid_A, grid_1, grid_B] ([], []) = (vertical_grids, horizontal_grids)
    \<and> vertical_grids = filter (\<lambda>g. \<not> is_horizontal g) [grid_A, grid_1, grid_B]
    \<and> horizontal_grids = filter is_horizontal [grid_A, grid_1, grid_B]
    \<and> get_grid_intersections example_Intersect vertical_grids horizontal_grids
        = example_intersections
    \<and> (\<forall>ip v h. ((ip, v, h)
             \<in> set (get_grid_intersections example_Intersect vertical_grids horizontal_grids)) =
          (v \<in> set [grid_A, grid_1, grid_B] \<and> \<not> is_horizontal v
           \<and> h \<in> set [grid_A, grid_1, grid_B] \<and> is_horizontal h
           \<and> reports_overlap example_Intersect v h \<and> ip = first_point example_Intersect v h))
    \<and> (\<forall>I'. (\<forall>v\<in>set vertical_grids. \<forall>h\<in>set horizontal_grids.
                 I' (Curve v) (Curve h) = example_Intersect (Curve v) (Curve h)) \<longrightarrow>
              get_grid_intersections I' vertical_grids horizontal_grids
                = get_grid_intersections example_Intersect vertical_grids horizontal_grids)"
  using grid_intersections_are_the_overlapping_pairs [of "[grid_A, grid_1, grid_B]" example_Intersect]
  unfolding ex_spec_grid_intersections .

text \<open>
  C5. The function is documented to ensure that a text parameter of the given name exists
  and is bound to the given categories, and C5 says so of every normal return. The code
  decides existence by the name alone. At the input where the project already has a
  parameter "Number" that is not a text parameter, bound to the category of the selection,
  the call returns normally, starts no transaction and changes nothing: the binding map
  still holds that one definition, and no text parameter named "Number" is bound.
\<close>

theorem existing_parameter_need_not_be_text:
  "ensure_text_parameter ''Number'' [walls] integer_number_world = (Returned, integer_number_world)
   \<and> ParameterBindings (document integer_number_world) =
       [(\<lparr>definition_name = ''Number'', definition_type = OtherType\<rparr>,
         \<lparr>binding_kind = InstanceBinding, Categories = {walls}\<rparr>)]
   \<and> \<not> (\<exists>d b. (d, b) \<in> set (ParameterBindings (document integer_number_world))
              \<and> definition_name d = ''Number'' \<and> definition_type d = Text)"
proof -
  have bs: "ParameterBindings (document integer_number_world) =
       [(\<lparr>definition_name = ''Number'', definition_type = OtherType\<rparr>,
         \<lparr>binding_kind = InstanceBinding, Categories = {walls}\<rparr>)]"
    by (simp add: integer_number_world_def)
  have fd: "find_definition ''Number'' (ParameterBindings (document integer_number_world))
      = Some (0, \<lparr>definition_name = ''Number'', definition_type = OtherType\<rparr>,
              \<lparr>binding_kind = InstanceBinding, Categories = {walls}\<rparr>)"
    unfolding bs by simp
  have "update_binding ''Number'' {c \<in> set [walls]. AllowsBoundParameters c}
          (0, \<lparr>definition_name = ''Number'', definition_type = OtherType\<rparr>,
              \<lparr>binding_kind = InstanceBinding, Categories = {walls}\<rparr>) integer_number_world
        = integer_number_world"
    by (rule update_binding_noop) auto
  then have "ensure_text_parameter ''Number'' [walls] integer_number_world
      = (Returned, integer_number_world)"
    unfolding ensure_existing [OF fd] by simp
  then show ?thesis unfolding bs by simp
qed



text \<open>
  C7. The transaction returns for every selection whose ids are elements of the document.
  Every loop is a structural recursion over a finite list: the search for the nearest
  intersection calls \<^verbatim>\<open>DistanceTo\<close> once for each entry of the intersection list, so the
  first loop makes at most (selected elements) times (intersections) such calls; the
  distances from the start point take at most one call for each selected element, the
  numbering loop one step for each located element, and the grid intersections one
  \<^verbatim>\<open>Intersect\<close> call for each pair of a vertical and a horizontal grid.
\<close>

theorem scans_are_linear:
  assumes "\<forall>e\<in>set sel. elements (document w) e \<noteq> None"
  shows "(\<exists>r. assign_parameters ints start_point sel w = Inr r)
       \<and> T_closest_scan pt ints (PosInf, None) = length ints
       \<and> T_grid_square_loop ints sel (w, {}) \<le> length sel * length ints
       \<and> T_elements_with_distance doc start_point sel \<le> length sel
       \<and> T_number_loop (sort_key snd (located doc start_point sel)) \<le> length sel
       \<and> T_get_grid_intersections I v_grids h_grids = length v_grids * length h_grids"
proof -
  have "\<exists>r. assign_parameters ints start_point sel w = Inr r"
    using assign_parameters_eq [OF assms] by blast
  moreover have "T_number_loop (sort_key snd (located doc start_point sel)) \<le> length sel"
    using length_located_le [of doc start_point sel] by (simp add: T_number_loop_length)
  ultimately show ?thesis
    using T_closest_scan_length T_grid_square_loop_le T_elements_with_distance_le
      T_get_grid_intersections_product by blast
qed

theorem scans_are_linear_witness:
  "elements (document example_world) 7 \<noteq> None
   \<and> elements (document example_world) 8 \<noteq> None
   \<and> (\<exists>r. assign_parameters example_intersections (point 1 0 0) [7, 8] example_world = Inr r)
   \<and> T_closest_scan (point 8 0 0) example_intersections (PosInf, None) = 2
   \<and> T_grid_square_loop example_intersections [7, 8] (example_world, {}) \<le> 4
   \<and> T_elements_with_distance example_document (point 1 0 0) [7, 8] \<le> 2
   \<and> T_number_loop (sort_key snd (located example_document (point 1 0 0) [7, 8])) \<le> 2
   \<and> T_get_grid_intersections (\<lambda>a b. (Overlap, [point 0 0 0])) [grid_A, grid_B] [grid_1] = 2"
proof -
  have h: "\<forall>e\<in>set [7, 8]. elements (document example_world) e \<noteq> None"
    by (simp add: example_world_def example_document_def example_elements_def)
  have l: "length example_intersections = 2" by (simp add: example_intersections_def)
  from scans_are_linear [OF h, of example_intersections "point 1 0 0" "point 8 0 0"
      example_document "\<lambda>a b. (Overlap, [point 0 0 0])" "[grid_A, grid_B]" "[grid_1]"]
  show ?thesis using h by (simp add: l)
qed



text \<open>
  C9. With the selected ids all elements of the document, the transaction ends with one of
  two reports. The ids with at least one \<^verbatim>\<open>param.Set\<close> are the selected ids that got a
  "Grid Square" or a "Number"; the report is "Selected elements were successfully
  numbered." exactly when their number equals the number of selected ids, and "Not all
  elements were numbered." otherwise. An element with one of the two parameters counts: in
  the example, element 5 has a read-only "Number", gets a "Grid Square" only, and the
  report for the selection of element 5 alone is the successful one.
\<close>

theorem report_counts_modified_elements:
  assumes "\<forall>e\<in>set sel. elements (document w) e \<noteq> None"
  shows "(\<exists>w' evs msg.
            numbering_transaction ints start_point sel w = (Returned, w')
          \<and> journal w' = journal w @ evs @ [Alert msg]
          \<and> written_ids evs =
              {eid \<in> set sel.
                 (location_of (document w) eid \<noteq> None \<and> ints \<noteq> []
                    \<and> writable (document w) eid ''Grid Square'')
                 \<or> (location_of (document w) eid \<noteq> None \<and> writable (document w) eid ''Number'')}
          \<and> (msg = ''Selected elements were successfully numbered.'')
              = (card (written_ids evs) = length sel)
          \<and> (msg = ''Not all elements were numbered.'')
              = (card (written_ids evs) \<noteq> length sel))
       \<and> (\<exists>w'. numbering_transaction example_intersections (point 2 0 0) [5] example_world
                  = (Returned, w')
              \<and> last (journal w') = Alert ''Selected elements were successfully numbered.''
              \<and> \<not> writable (document example_world) 5 ''Number''
              \<and> (\<forall>v. ParamSet 5 ''Number'' v \<notin> set (journal w')))"
proof -
  let ?ws = "all_writes ints start_point sel (document w)"
  let ?t = "''Assign Grid Square and Number''"
  let ?evs = "[TxStart ?t] @ write_events ?ws @ [TxCommit ?t]"
  let ?msg = "if card (fst ` set ?ws) = length sel
              then ''Selected elements were successfully numbered.''
              else ''Not all elements were numbered.''"
  let ?w' = "w\<lparr>document := apply_writes ?ws (document w),
               journal := journal w @ ?evs @ [Alert ?msg]\<rparr>"
  have run: "numbering_transaction ints start_point sel w = (Returned, ?w')"
    by (rule numbering_transaction_eq [OF assms])
  have ids: "written_ids ?evs = fst ` set ?ws"
    by (simp add: written_ids_append written_ids_write_events)
  have j: "journal ?w' = journal w @ ?evs @ [Alert ?msg]" by simp
  have s: "(?msg = ''Selected elements were successfully numbered.'')
      = (card (written_ids ?evs) = length sel)"
    unfolding ids by simp
  have n: "(?msg = ''Not all elements were numbered.'')
      = (card (written_ids ?evs) \<noteq> length sel)"
    unfolding ids by simp
  have "written_ids ?evs =
      {eid \<in> set sel.
         (location_of (document w) eid \<noteq> None \<and> ints \<noteq> []
            \<and> writable (document w) eid ''Grid Square'')
         \<or> (location_of (document w) eid \<noteq> None \<and> writable (document w) eid ''Number'')}"
    unfolding ids by (rule fst_set_all_writes)
  with run j s n have "\<exists>w' evs msg.
            numbering_transaction ints start_point sel w = (Returned, w')
          \<and> journal w' = journal w @ evs @ [Alert msg]
          \<and> written_ids evs =
              {eid \<in> set sel.
                 (location_of (document w) eid \<noteq> None \<and> ints \<noteq> []
                    \<and> writable (document w) eid ''Grid Square'')
                 \<or> (location_of (document w) eid \<noteq> None \<and> writable (document w) eid ''Number'')}
          \<and> (msg = ''Selected elements were successfully numbered.'')
              = (card (written_ids evs) = length sel)
          \<and> (msg = ''Not all elements were numbered.'')
              = (card (written_ids evs) \<noteq> length sel)"
    by blast
  then show ?thesis using ex_only_grid_square by blast
qed


theorem report_counts_modified_elements_witness:
  "elements (document example_world) 7 \<noteq> None
   \<and> elements (document example_world) 8 \<noteq> None
   \<and> (\<exists>w' evs msg.
            numbering_transaction example_intersections (point 1 0 0) [7, 8] example_world
              = (Returned, w')
          \<and> journal w' = journal example_world @ evs @ [Alert msg]
          \<and> written_ids evs =
              {eid \<in> set [7, 8].
                 (location_of (document example_world) eid \<noteq> None \<and> example_intersections \<noteq> []
                    \<and> writable (document example_world) eid ''Grid Square'')
                 \<or> (location_of (document example_world) eid \<noteq> None
                    \<and> writable (document example_world) eid ''Number'')}
          \<and> (msg = ''Selected elements were successfully numbered.'')
              = (card (written_ids evs) = length [7, 8 :: ElementId])
          \<and> (msg = ''Not all elements were numbered.'')
              = (card (written_ids evs) \<noteq> length [7, 8 :: ElementId]))"
proof -
  have h: "\<forall>e\<in>set [7, 8]. elements (document example_world) e \<noteq> None"
    by (simp add: example_world_def example_document_def example_elements_def)
  from report_counts_modified_elements [OF h, of example_intersections "point 1 0 0"]
  show ?thesis using h by simp
qed



end
